theory Spec2Isabelle
  imports Main "HOL-Library.Multiset"
begin

section \<open>Data model (accounts/models.py)\<close>

text \<open>
  The relational store of the \<open>accounts\<close> application. Every model class is a record; the
  automatic primary key \<open>id\<close> of a model is the field \<open>*_pk\<close>; a foreign key holds the primary
  key of the row it refers to. Tables are lists of rows in insertion order.
\<close>

datatype credential = Unusable | Usable string

record user =
  user_pk :: int
  user_id :: string
  email :: string
  is_admin :: bool
  is_teamlead :: bool
  is_active :: bool
  is_staff :: bool
  password :: credential

record team =
  team_pk :: int
  team_name :: string
  team_description :: string
  team_created_by :: int
  members :: "int list"

record task =
  task_pk :: int
  title :: string
  description :: string
  created_by :: int
  parent_task :: "int option"
  estimated_start_date :: int
  estimated_end_date :: int
  priority :: string
  status :: string

record todo =
  todo_pk :: int
  todo_title :: string
  todo_date :: int
  is_done :: bool
  todo_created_by :: int

record conversation =
  conv_pk :: int
  user1 :: int
  user2 :: int

record message =
  msg_pk :: int
  conversation :: int
  sender :: int
  msg_text :: string
  is_read :: bool
  timestamp :: int

record store =
  users :: "user list"
  teams :: "team list"
  tasks :: "task list"
  todos :: "todo list"
  conversations :: "conversation list"
  messages :: "message list"

text \<open>Exceptions of Django and of the REST framework that the views can raise.\<close>

datatype error =
    DoesNotExist
  | MultipleObjectsReturned
  | IntegrityError
  | RelatedObjectDoesNotExist
  | KeyError
  | ValidationError string
  | Http404
  | NotAuthenticated
  | PermissionDenied

text \<open>
  An operation returns the store it leaves behind together with its outcome: no view of the
  repository opens a transaction, so what was written before an exception stays written.
\<close>

type_synonym 'a result = "store \<times> (error + 'a)"

text \<open>The primary key given to a new row: one more than the largest key of the table.\<close>

definition next_pk :: "int list \<Rightarrow> int" where
  "next_pk ids = fold max ids 0 + 1"

section \<open>Conversations (models.py, views.py)\<close>

text \<open>\<open>Conversation.objects.filter(user1=a, user2=b)\<close>, the arguments given by primary key.\<close>

definition Conversation_filter :: "store \<Rightarrow> int \<Rightarrow> int \<Rightarrow> conversation list" where
  "Conversation_filter s a b =
     filter (\<lambda>c. user1 c = a \<and> user2 c = b) (conversations s)"

text \<open>
  \<open>Conversation(user1=u1, user2=u2).save()\<close> of a new instance. \<open>save\<close> reads
  \<open>self.user1.id\<close> and \<open>self.user2.id\<close>: an unset foreign key raises
  \<open>RelatedObjectDoesNotExist\<close>. It swaps the two users when \<open>user1.id > user2.id\<close>, then
  inserts; the constraint \<open>unique_conversation_pair\<close> on \<open>(user1, user2)\<close> rejects a
  second row with the same ordered pair.
\<close>

definition Conversation_create :: "store \<Rightarrow> user option \<Rightarrow> user option \<Rightarrow> conversation result" where
  "Conversation_create s u1 u2 =
     (case u1 of
        None \<Rightarrow> (s, Inl RelatedObjectDoesNotExist)
      | Some a \<Rightarrow>
          (case u2 of
             None \<Rightarrow> (s, Inl RelatedObjectDoesNotExist)
           | Some b \<Rightarrow>
               (let x = (if user_pk a > user_pk b then user_pk b else user_pk a);
                    y = (if user_pk a > user_pk b then user_pk a else user_pk b)
                in if Conversation_filter s x y \<noteq> [] then (s, Inl IntegrityError)
                   else
                     (let c = \<lparr>conv_pk = next_pk (map conv_pk (conversations s)),
                               user1 = x, user2 = y\<rparr>
                      in (s\<lparr>conversations := conversations s @ [c]\<rparr>, Inr c)))))"

text \<open>
  \<open>Conversation.objects.get_or_create(user1=u1, user2=u2)\<close>: \<open>get\<close> first (one row: return it
  with \<open>False\<close>; several rows: \<open>MultipleObjectsReturned\<close>); when there is none, \<open>create\<close>, and an
  \<open>IntegrityError\<close> of the insert is raised again once the repeated \<open>get\<close> finds nothing.
\<close>

definition Conversation_get_or_create :: "store \<Rightarrow> user \<Rightarrow> user \<Rightarrow> (conversation \<times> bool) result" where
  "Conversation_get_or_create s u1 u2 =
     (case Conversation_filter s (user_pk u1) (user_pk u2) of
        [] \<Rightarrow>
          (case Conversation_create s (Some u1) (Some u2) of
             (s', Inr c) \<Rightarrow> (s', Inr (c, True))
           | (s', Inl e) \<Rightarrow> (s', Inl e))
      | [c] \<Rightarrow> (s, Inr (c, False))
      | _ \<Rightarrow> (s, Inl MultipleObjectsReturned))"

text \<open>
  \<open>get_or_create_conversation(user1, user2)\<close>: \<open>sorted([user1, user2], key=lambda u: u.id)\<close>
  is a stable sort of a two-element list, unpacked into \<open>u1, u2\<close>.
\<close>

definition get_or_create_conversation :: "store \<Rightarrow> user \<Rightarrow> user \<Rightarrow> (conversation \<times> bool) result" where
  "get_or_create_conversation s usr1 usr2 =
     (let us = sort_key user_pk [usr1, usr2]
      in Conversation_get_or_create s (us ! 0) (us ! 1))"

text \<open>
  \<open>ConversationListCreateAPIView.perform_create\<close>: \<open>serializer.save(user1=self.request.user)\<close>.
  Both user fields of \<open>ConversationSerializer\<close> are read-only, so the validated data is empty
  and the new instance has \<open>user1\<close> only.
\<close>

definition ConversationListCreateAPIView_perform_create :: "store \<Rightarrow> user \<Rightarrow> conversation result" where
  "ConversationListCreateAPIView_perform_create s request_user =
     Conversation_create s (Some request_user) None"

text \<open>\<open>Conversation.objects.get(id=conversation_id)\<close>.\<close>

definition Conversation_get :: "store \<Rightarrow> int \<Rightarrow> error + conversation" where
  "Conversation_get s conversation_id =
     (case filter (\<lambda>c. conv_pk c = conversation_id) (conversations s) of
        [] \<Rightarrow> Inl DoesNotExist
      | [c] \<Rightarrow> Inr c
      | _ \<Rightarrow> Inl MultipleObjectsReturned)"

text \<open>\<open>User.objects.get(id=pk)\<close>.\<close>

definition User_get :: "store \<Rightarrow> int \<Rightarrow> error + user" where
  "User_get s pk =
     (case filter (\<lambda>u. user_pk u = pk) (users s) of
        [] \<Rightarrow> Inl DoesNotExist
      | [u] \<Rightarrow> Inr u
      | _ \<Rightarrow> Inl MultipleObjectsReturned)"

text \<open>
  The two invariants of the conversation table. \<open>pair_key\<close> is the unordered pair of a row,
  written lower id first.
\<close>

definition pair_key :: "conversation \<Rightarrow> int \<times> int" where
  "pair_key c = (min (user1 c) (user2 c), max (user1 c) (user2 c))"

definition one_row_per_pair :: "store \<Rightarrow> bool" where
  "one_row_per_pair s = distinct (map pair_key (conversations s))"

definition canonical_strict :: "store \<Rightarrow> bool" where
  "canonical_strict s = list_all (\<lambda>c. user1 c < user2 c) (conversations s)"

definition canonical_weak :: "store \<Rightarrow> bool" where
  "canonical_weak s = list_all (\<lambda>c. user1 c \<le> user2 c) (conversations s)"

section \<open>Messages (models.py, serializers.py, views.py)\<close>

text \<open>
  \<open>Message.objects.create(conversation=..., sender=..., text=...)\<close>. \<open>timestamp\<close> is
  \<open>auto_now_add\<close>: the clock reading \<open>now\<close> at the insert. \<open>sender\<close> is a non-null foreign
  key, so an instance saved without a sender is rejected by the database.
\<close>

definition Message_create ::
  "store \<Rightarrow> int \<Rightarrow> conversation \<Rightarrow> user option \<Rightarrow> string \<Rightarrow> bool \<Rightarrow> message result" where
  "Message_create s now c sndr txt rd =
     (case sndr of
        None \<Rightarrow> (s, Inl IntegrityError)
      | Some u \<Rightarrow>
          (let m = \<lparr>msg_pk = next_pk (map msg_pk (messages s)), conversation = conv_pk c,
                    sender = user_pk u, msg_text = txt, is_read = rd, timestamp = now\<rparr>
           in (s\<lparr>messages := messages s @ [m]\<rparr>, Inr m)))"

text \<open>\<open>conversation.messages.order_by("timestamp")\<close>.\<close>

definition messages_order_by_timestamp :: "store \<Rightarrow> conversation \<Rightarrow> message list" where
  "messages_order_by_timestamp s c =
     sort_key timestamp (filter (\<lambda>m. conversation m = conv_pk c) (messages s))"

text \<open>
  \<open>SendMessageView.post\<close>. The arguments of \<open>Message.objects.create\<close> are evaluated after
  the conversation has been resolved, so a request without \<open>text\<close> raises \<open>KeyError\<close> with the
  conversation already stored.
\<close>

definition SendMessageView_post ::
  "store \<Rightarrow> int \<Rightarrow> user \<Rightarrow> int \<Rightarrow> string option \<Rightarrow> message result" where
  "SendMessageView_post s now request_user receiver_id data_text =
     (case User_get s receiver_id of
        Inl e \<Rightarrow> (s, Inl e)
      | Inr receiver \<Rightarrow>
          (case get_or_create_conversation s request_user receiver of
             (s1, Inl e) \<Rightarrow> (s1, Inl e)
           | (s1, Inr (conv, created)) \<Rightarrow>
               (case data_text of
                  None \<Rightarrow> (s1, Inl KeyError)
                | Some txt \<Rightarrow> Message_create s1 now conv (Some request_user) txt False)))"

text \<open>\<open>ChatHistoryView.get\<close>.\<close>

definition ChatHistoryView_get :: "store \<Rightarrow> user \<Rightarrow> int \<Rightarrow> message list result" where
  "ChatHistoryView_get s request_user usr_id =
     (case User_get s usr_id of
        Inl e \<Rightarrow> (s, Inl e)
      | Inr other_user \<Rightarrow>
          (case get_or_create_conversation s request_user other_user of
             (s1, Inl e) \<Rightarrow> (s1, Inl e)
           | (s1, Inr (conv, created)) \<Rightarrow>
               (s1, Inr (messages_order_by_timestamp s1 conv))))"

text \<open>
  \<open>MessageByConversationAPIView.get_queryset\<close>. \<open>user not in [conversation.user1,
  conversation.user2]\<close> compares model instances, that is, primary keys.
\<close>

definition MessageByConversationAPIView_get_queryset ::
  "store \<Rightarrow> user \<Rightarrow> int \<Rightarrow> error + message list" where
  "MessageByConversationAPIView_get_queryset s request_user conversation_id =
     (case Conversation_get s conversation_id of
        Inl e \<Rightarrow> Inl e
      | Inr conv \<Rightarrow>
          if user_pk request_user \<notin> set [user1 conv, user2 conv] then Inr []
          else Inr (messages_order_by_timestamp s conv))"

text \<open>
  The body of a request to a message endpoint, and \<open>MessageSerializer\<close>: \<open>conversation\<close> is a
  required primary key of an existing conversation, \<open>text\<close> a required character field that
  may not be blank, \<open>is_read\<close> optional with the
  model's default; \<open>sender\<close> and \<open>timestamp\<close> are read-only.
\<close>

record message_data =
  data_conversation :: "int option"
  data_text :: "string option"
  data_is_read :: "bool option"

text \<open>
  Strings of a request are sequences of code points below 256. \<open>is_space\<close> holds for those
  that Python's \<open>str.strip()\<close> removes: the ASCII white space, the separators 0x1C to 0x1F,
  NEL (0x85) and the no-break space (0xA0).
\<close>

definition is_space :: "char \<Rightarrow> bool" where
  "is_space c = (c \<in> set [CHR '' '', CHR 0x09, CHR 0x0A, CHR 0x0B, CHR 0x0C, CHR 0x0D,
                            CHR 0x1C, CHR 0x1D, CHR 0x1E, CHR 0x1F, CHR 0x85, CHR 0xA0])"

definition strip :: "string \<Rightarrow> string" where
  "strip x = rev (dropWhile is_space (rev (dropWhile is_space x)))"

text \<open>
  \<open>CharField.run_validation\<close> of the REST framework on a string, with \<open>allow_blank\<close> and
  \<open>max_length\<close> as the field declares them and \<open>trim_whitespace\<close> at its default: a value
  that is empty once trimmed is blank, which is refused, or returned as the empty string when
  blank is allowed; any other value is trimmed, and the validators of the field then refuse it
  when it contains the null character or is longer than \<open>max_length\<close>. \<open>None\<close> is a
  refusal.
\<close>

definition CharField :: "bool \<Rightarrow> nat option \<Rightarrow> string \<Rightarrow> string option" where
  "CharField allow_blank max_length raw =
     (if strip raw = [] then (if allow_blank then Some [] else None)
      else if CHR 0x00 \<in> set (strip raw) then None
      else
        (case max_length of
           None \<Rightarrow> Some (strip raw)
         | Some n \<Rightarrow> if length (strip raw) > n then None else Some (strip raw)))"

text \<open>
  A character field with \<open>required=False\<close> and \<open>allow_blank=True\<close>, as \<open>description\<close>
  is everywhere: absent from the validated data when the request does not send it.
\<close>

definition optional_CharField :: "string option \<Rightarrow> string option option" where
  "optional_CharField x =
     (case x of
        None \<Rightarrow> Some None
      | Some raw \<Rightarrow> map_option Some (CharField True None raw))"

definition MessageSerializer_validate ::
  "store \<Rightarrow> message_data \<Rightarrow> error + (conversation \<times> string \<times> bool)" where
  "MessageSerializer_validate s d =
     (case data_conversation d of
        None \<Rightarrow> Inl (ValidationError ''conversation: required'')
      | Some k \<Rightarrow>
          (case Conversation_get s k of
             Inl e \<Rightarrow> Inl (ValidationError ''conversation: does_not_exist'')
           | Inr c \<Rightarrow>
               (case data_text d of
                  None \<Rightarrow> Inl (ValidationError ''text: required'')
                | Some raw \<Rightarrow>
                    (case CharField False None raw of
                       None \<Rightarrow> Inl (ValidationError ''text: invalid'')
                     | Some txt \<Rightarrow>
                         Inr (c, txt,
                              (case data_is_read d of None \<Rightarrow> False | Some b \<Rightarrow> b))))))"

text \<open>
  \<open>MessageByConversationAPIView\<close>, POST: the generic \<open>create\<close> validates the body, then
  \<open>perform_create\<close> looks the conversation of the URL up and saves the message with
  \<open>sender=self.request.user\<close> and that conversation, which replaces the validated one.
\<close>

definition MessageByConversationAPIView_perform_create ::
  "store \<Rightarrow> int \<Rightarrow> user \<Rightarrow> int \<Rightarrow> string \<Rightarrow> bool \<Rightarrow> message result" where
  "MessageByConversationAPIView_perform_create s now request_user conversation_id txt rd =
     (case Conversation_get s conversation_id of
        Inl e \<Rightarrow> (s, Inl e)
      | Inr conv \<Rightarrow> Message_create s now conv (Some request_user) txt rd)"

definition MessageByConversationAPIView_create ::
  "store \<Rightarrow> int \<Rightarrow> user \<Rightarrow> int \<Rightarrow> message_data \<Rightarrow> message result" where
  "MessageByConversationAPIView_create s now request_user conversation_id d =
     (case MessageSerializer_validate s d of
        Inl e \<Rightarrow> (s, Inl e)
      | Inr (c, txt, rd) \<Rightarrow>
          MessageByConversationAPIView_perform_create s now request_user conversation_id txt rd)"

text \<open>
  \<open>MessageListCreateAPIView\<close> of views.py (the view routed at \<open>messages/\<close>), POST: it has no
  \<open>perform_create\<close> of its own, so the message is saved without a sender.
\<close>

definition MessageListCreateAPIView_create ::
  "store \<Rightarrow> int \<Rightarrow> user \<Rightarrow> message_data \<Rightarrow> message result" where
  "MessageListCreateAPIView_create s now request_user d =
     (case MessageSerializer_validate s d of
        Inl e \<Rightarrow> (s, Inl e)
      | Inr (c, txt, rd) \<Rightarrow> Message_create s now c None txt rd)"

text \<open>
  The invariant of the message table: the conversation of every message is stored and has
  the sender of the message as one of its two users.
\<close>

definition sender_is_participant :: "store \<Rightarrow> bool" where
  "sender_is_participant s =
     list_all
       (\<lambda>m. list_ex
          (\<lambda>c. conv_pk c = conversation m \<and> (sender m = user1 c \<or> sender m = user2 c))
          (conversations s))
       (messages s)"

text \<open>Referential integrity of \<open>Message.conversation\<close>.\<close>

definition messages_refer_to_conversations :: "store \<Rightarrow> bool" where
  "messages_refer_to_conversations s =
     list_all (\<lambda>m. conversation m \<in> set (map conv_pk (conversations s))) (messages s)"

section \<open>Tasks and subtasks (models.py, serializers.py, views.py)\<close>

definition PRIORITY_CHOICES :: "string list" where
  "PRIORITY_CHOICES = [''LOW'', ''MEDIUM'', ''HIGH'']"

definition STATUS_CHOICES :: "string list" where
  "STATUS_CHOICES = [''PENDING'', ''IN_PROGRESS'', ''COMPLETED'']"

text \<open>
  A date of a request body: a string that parses as a date (kept as its day number) or one
  that does not.
\<close>

datatype date_input = DateValue int | DateMalformed

text \<open>
  One entry of \<open>subtasks_data\<close> (and the body of \<open>add_subtask\<close>) as the client sends it. A
  client may send an \<open>id\<close> key.
\<close>

record subtask_data =
  d_id :: "int option"
  d_title :: "string option"
  d_description :: "string option"
  d_estimated_start_date :: "date_input option"
  d_estimated_end_date :: "date_input option"
  d_priority :: "string option"
  d_status :: "string option"

text \<open>
  A validated subtask entry, the dictionary \<open>sub\<close> that \<open>TaskSerializer.create\<close> and
  \<open>TaskSerializer.update\<close> read: \<open>description\<close> is present only when sent, and \<open>sub_id\<close>
  is the value of \<open>sub.get("id")\<close>.
\<close>

record subtask_fields =
  sub_id :: "int option"
  sub_title :: string
  sub_description :: "string option"
  sub_estimated_start_date :: int
  sub_estimated_end_date :: int
  sub_priority :: string
  sub_status :: string

text \<open>
  \<open>SubtaskCreateSerializer\<close>. Its fields are \<open>title\<close> (required, not blank, of any
  length: the field declares no \<open>max_length\<close>), \<open>description\<close> (optional, may be blank), the two dates (required), \<open>priority\<close> (required choice) and
  \<open>status\<close> (optional choice, default \<open>PENDING\<close>). The declaration of \<open>id\<close> is commented out
  in the source, and a serializer keeps declared fields only: the validated entry never has
  an \<open>id\<close>.
\<close>

definition SubtaskCreateSerializer_validate :: "subtask_data \<Rightarrow> error + subtask_fields" where
  "SubtaskCreateSerializer_validate d =
     (case d_title d of
        None \<Rightarrow> Inl (ValidationError ''title'')
      | Some raw \<Rightarrow>
          (case CharField False None raw of
             None \<Rightarrow> Inl (ValidationError ''title'')
           | Some ttl \<Rightarrow>
               (case optional_CharField (d_description d) of
                  None \<Rightarrow> Inl (ValidationError ''description'')
                | Some descr \<Rightarrow>
                    (case d_estimated_start_date d of
                       Some (DateValue sd) \<Rightarrow>
                         (case d_estimated_end_date d of
                            Some (DateValue ed) \<Rightarrow>
                              (case d_priority d of
                                 None \<Rightarrow> Inl (ValidationError ''priority'')
                               | Some prio \<Rightarrow>
                                   if prio \<notin> set PRIORITY_CHOICES
                                   then Inl (ValidationError ''priority'')
                                   else
                                     (let st = (case d_status d of
                                                  None \<Rightarrow> ''PENDING'' | Some x \<Rightarrow> x)
                                      in if st \<notin> set STATUS_CHOICES
                                         then Inl (ValidationError ''status'')
                                         else Inr \<lparr>sub_id = None, sub_title = ttl,
                                                   sub_description = descr,
                                                   sub_estimated_start_date = sd,
                                                   sub_estimated_end_date = ed,
                                                   sub_priority = prio, sub_status = st\<rparr>))
                          | _ \<Rightarrow> Inl (ValidationError ''estimated_end_date''))
                     | _ \<Rightarrow> Inl (ValidationError ''estimated_start_date'')))))"

text \<open>The nested \<open>SubtaskCreateSerializer(many=True)\<close>: every entry must validate.\<close>

fun validate_subtasks :: "subtask_data list \<Rightarrow> error + subtask_fields list" where
  "validate_subtasks [] = Inr []"
| "validate_subtasks (d # ds) =
     (case SubtaskCreateSerializer_validate d of
        Inl e \<Rightarrow> Inl e
      | Inr v \<Rightarrow>
          (case validate_subtasks ds of
             Inl e \<Rightarrow> Inl e
           | Inr vs \<Rightarrow> Inr (v # vs)))"

text \<open>
  The body of a task request and \<open>TaskSerializer\<close>, a model serializer: \<open>title\<close> (required,
  at most 255 characters) and the two dates are required, \<open>description\<close>, \<open>priority\<close> and
  \<open>status\<close> are optional (the model has defaults), \<open>subtasks_data\<close> is an optional list of
  subtask entries.
\<close>

record task_data =
  td_title :: "string option"
  td_description :: "string option"
  td_estimated_start_date :: "date_input option"
  td_estimated_end_date :: "date_input option"
  td_priority :: "string option"
  td_status :: "string option"
  td_subtasks_data :: "subtask_data list option"

record task_fields =
  tf_title :: string
  tf_description :: "string option"
  tf_estimated_start_date :: int
  tf_estimated_end_date :: int
  tf_priority :: "string option"
  tf_status :: "string option"

definition valid_choice :: "string list \<Rightarrow> string option \<Rightarrow> bool" where
  "valid_choice choices x = (case x of None \<Rightarrow> True | Some c \<Rightarrow> c \<in> set choices)"

definition TaskSerializer_validate ::
  "task_data \<Rightarrow> error + (task_fields \<times> subtask_fields list)" where
  "TaskSerializer_validate d =
     (case td_title d of
        None \<Rightarrow> Inl (ValidationError ''title'')
      | Some raw \<Rightarrow>
          (case CharField False (Some 255) raw of
             None \<Rightarrow> Inl (ValidationError ''title'')
           | Some ttl \<Rightarrow>
               (case optional_CharField (td_description d) of
                  None \<Rightarrow> Inl (ValidationError ''description'')
                | Some descr \<Rightarrow>
                    (case td_estimated_start_date d of
                       Some (DateValue sd) \<Rightarrow>
                         (case td_estimated_end_date d of
                            Some (DateValue ed) \<Rightarrow>
                              if \<not> valid_choice PRIORITY_CHOICES (td_priority d)
                              then Inl (ValidationError ''priority'')
                              else if \<not> valid_choice STATUS_CHOICES (td_status d)
                              then Inl (ValidationError ''status'')
                              else
                                (case validate_subtasks
                                        (case td_subtasks_data d of
                                           None \<Rightarrow> [] | Some ds \<Rightarrow> ds) of
                                   Inl e \<Rightarrow> Inl (ValidationError ''subtasks_data'')
                                 | Inr subs \<Rightarrow>
                                     Inr (\<lparr>tf_title = ttl, tf_description = descr,
                                            tf_estimated_start_date = sd,
                                            tf_estimated_end_date = ed,
                                            tf_priority = td_priority d,
                                            tf_status = td_status d\<rparr>,
                                          subs))
                          | _ \<Rightarrow> Inl (ValidationError ''estimated_end_date''))
                     | _ \<Rightarrow> Inl (ValidationError ''estimated_start_date'')))))"

text \<open>
  \<open>Task.objects.create(parent_task=..., created_by=..., **fields)\<close>. A row is inserted under
  the next primary key, or under the given one when the keyword arguments carry an \<open>id\<close>,
  which the database rejects when it is taken.
\<close>

definition Task_create :: "store \<Rightarrow> int option \<Rightarrow> task \<Rightarrow> task result" where
  "Task_create s explicit_pk row =
     (case explicit_pk of
        None \<Rightarrow>
          (let t = row\<lparr>task_pk := next_pk (map task_pk (tasks s))\<rparr>
           in (s\<lparr>tasks := tasks s @ [t]\<rparr>, Inr t))
      | Some k \<Rightarrow>
          if k \<in> set (map task_pk (tasks s)) then (s, Inl IntegrityError)
          else (let t = row\<lparr>task_pk := k\<rparr> in (s\<lparr>tasks := tasks s @ [t]\<rparr>, Inr t)))"

text \<open>\<open>instance.save()\<close> of a task that has a primary key: update the row, insert if none.\<close>

definition Task_save :: "store \<Rightarrow> task \<Rightarrow> store" where
  "Task_save s row =
     (if task_pk row \<in> set (map task_pk (tasks s))
      then s\<lparr>tasks := map (\<lambda>t. if task_pk t = task_pk row then row else t) (tasks s)\<rparr>
      else s\<lparr>tasks := tasks s @ [row]\<rparr>)"

text \<open>The row of a subtask built from \<open>**sub\<close>; the primary key is set at the insert.\<close>

definition subtask_row :: "task \<Rightarrow> user \<Rightarrow> subtask_fields \<Rightarrow> task" where
  "subtask_row parent usr sub =
     \<lparr>task_pk = 0, title = sub_title sub,
      description = (case sub_description sub of None \<Rightarrow> [] | Some x \<Rightarrow> x),
      created_by = user_pk usr, parent_task = Some (task_pk parent),
      estimated_start_date = sub_estimated_start_date sub,
      estimated_end_date = sub_estimated_end_date sub,
      priority = sub_priority sub, status = sub_status sub\<rparr>"

text \<open>The loop \<open>for sub in subtasks_data: Task.objects.create(...)\<close> of \<open>create\<close>.\<close>

fun create_subtasks :: "store \<Rightarrow> task \<Rightarrow> user \<Rightarrow> subtask_fields list \<Rightarrow> unit result" where
  "create_subtasks s main_task usr [] = (s, Inr ())"
| "create_subtasks s main_task usr (sub # subs) =
     (case Task_create s (sub_id sub) (subtask_row main_task usr sub) of
        (s1, Inl e) \<Rightarrow> (s1, Inl e)
      | (s1, Inr t) \<Rightarrow> create_subtasks s1 main_task usr subs)"

text \<open>\<open>TaskSerializer.create\<close>.\<close>

definition TaskSerializer_create ::
  "store \<Rightarrow> user \<Rightarrow> task_fields \<Rightarrow> subtask_fields list \<Rightarrow> task result" where
  "TaskSerializer_create s usr v subtasks_data =
     (case Task_create s None
             \<lparr>task_pk = 0, title = tf_title v,
              description = (case tf_description v of None \<Rightarrow> [] | Some x \<Rightarrow> x),
              created_by = user_pk usr, parent_task = None,
              estimated_start_date = tf_estimated_start_date v,
              estimated_end_date = tf_estimated_end_date v,
              priority = (case tf_priority v of None \<Rightarrow> ''MEDIUM'' | Some x \<Rightarrow> x),
              status = (case tf_status v of None \<Rightarrow> ''PENDING'' | Some x \<Rightarrow> x)\<rparr> of
        (s1, Inl e) \<Rightarrow> (s1, Inl e)
      | (s1, Inr main_task) \<Rightarrow>
          (case create_subtasks s1 main_task usr subtasks_data of
             (s2, Inl e) \<Rightarrow> (s2, Inl e)
           | (s2, Inr u) \<Rightarrow> (s2, Inr main_task)))"

text \<open>
  \<open>TaskViewSet\<close>, POST \<open>/tasks/\<close>: the generic \<open>create\<close> runs
  \<open>serializer.is_valid(raise_exception=True)\<close> on the whole body, the nested subtask entries
  included, before \<open>perform_create\<close> saves.
\<close>

definition TaskViewSet_create :: "store \<Rightarrow> user \<Rightarrow> task_data \<Rightarrow> task result" where
  "TaskViewSet_create s request_user d =
     (case TaskSerializer_validate d of
        Inl e \<Rightarrow> (s, Inl e)
      | Inr (v, subs) \<Rightarrow> TaskSerializer_create s request_user v subs)"

text \<open>
  The body of the loop of \<open>TaskSerializer.update\<close>. \<open>if sub_id\<close> is Python truth: an absent
  \<open>id\<close> and the id 0 are both false.
\<close>

definition update_subtask :: "store \<Rightarrow> task \<Rightarrow> user \<Rightarrow> subtask_fields \<Rightarrow> unit result" where
  "update_subtask s instance usr sub =
     (if sub_id sub \<noteq> None \<and> sub_id sub \<noteq> Some 0 then
        (case filter (\<lambda>t. Some (task_pk t) = sub_id sub \<and>
                           parent_task t = Some (task_pk instance)) (tasks s) of
           [] \<Rightarrow> (s, Inr ())
         | subtask # rest \<Rightarrow>
             (Task_save s
                (subtask\<lparr>title := sub_title sub,
                   description :=
                     (case sub_description sub of None \<Rightarrow> description subtask | Some x \<Rightarrow> x),
                   estimated_start_date := sub_estimated_start_date sub,
                   estimated_end_date := sub_estimated_end_date sub,
                   priority := sub_priority sub, status := sub_status sub\<rparr>),
              Inr ()))
      else
        (case Task_create s (sub_id sub) (subtask_row instance usr sub) of
           (s1, Inl e) \<Rightarrow> (s1, Inl e)
         | (s1, Inr t) \<Rightarrow> (s1, Inr ())))"

fun update_subtasks :: "store \<Rightarrow> task \<Rightarrow> user \<Rightarrow> subtask_fields list \<Rightarrow> unit result" where
  "update_subtasks s instance usr [] = (s, Inr ())"
| "update_subtasks s instance usr (sub # subs) =
     (case update_subtask s instance usr sub of
        (s1, Inl e) \<Rightarrow> (s1, Inl e)
      | (s1, Inr u) \<Rightarrow> update_subtasks s1 instance usr subs)"

text \<open>
  \<open>TaskSerializer.update\<close>: every key of the validated data is written to the instance, the
  instance is saved, then the subtask entries are processed.
\<close>

definition TaskSerializer_update ::
  "store \<Rightarrow> user \<Rightarrow> task \<Rightarrow> task_fields \<Rightarrow> subtask_fields list \<Rightarrow> task result" where
  "TaskSerializer_update s usr instance v subtasks_data =
     (let instance1 = instance\<lparr>title := tf_title v,
            description := (case tf_description v of None \<Rightarrow> description instance | Some x \<Rightarrow> x),
            estimated_start_date := tf_estimated_start_date v,
            estimated_end_date := tf_estimated_end_date v,
            priority := (case tf_priority v of None \<Rightarrow> priority instance | Some x \<Rightarrow> x),
            status := (case tf_status v of None \<Rightarrow> status instance | Some x \<Rightarrow> x)\<rparr>
      in (case update_subtasks (Task_save s instance1) instance1 usr subtasks_data of
            (s2, Inl e) \<Rightarrow> (s2, Inl e)
          | (s2, Inr u) \<Rightarrow> (s2, Inr instance1)))"

text \<open>
  \<open>get_object_or_404(Task, id=pk, created_by=user)\<close>, with \<open>parent_task__isnull=True\<close> added
  when \<open>top_level\<close> is set.
\<close>

definition Task_get_object_or_404 :: "store \<Rightarrow> int \<Rightarrow> user \<Rightarrow> bool \<Rightarrow> error + task" where
  "Task_get_object_or_404 s pk usr top_level =
     (case filter (\<lambda>t. task_pk t = pk \<and> created_by t = user_pk usr \<and>
                        (if top_level then parent_task t = None else True)) (tasks s) of
        [] \<Rightarrow> Inl Http404
      | [t] \<Rightarrow> Inr t
      | _ \<Rightarrow> Inl MultipleObjectsReturned)"

text \<open>
  \<open>TaskViewSet\<close>, PUT \<open>/tasks/{pk}/\<close>: \<open>get_object\<close> (overridden: any task of the caller),
  validation of the body, then \<open>TaskSerializer.update\<close>.
\<close>

definition TaskViewSet_update :: "store \<Rightarrow> user \<Rightarrow> int \<Rightarrow> task_data \<Rightarrow> task result" where
  "TaskViewSet_update s request_user pk d =
     (case Task_get_object_or_404 s pk request_user False of
        Inl e \<Rightarrow> (s, Inl e)
      | Inr instance \<Rightarrow>
          (case TaskSerializer_validate d of
             Inl e \<Rightarrow> (s, Inl e)
           | Inr (v, subs) \<Rightarrow> TaskSerializer_update s request_user instance v subs))"

text \<open>\<open>TaskViewSet.add_subtask\<close>, POST \<open>/tasks/{pk}/add_subtask/\<close>.\<close>

definition TaskViewSet_add_subtask :: "store \<Rightarrow> user \<Rightarrow> int \<Rightarrow> subtask_data \<Rightarrow> string result" where
  "TaskViewSet_add_subtask s request_user pk d =
     (case Task_get_object_or_404 s pk request_user True of
        Inl e \<Rightarrow> (s, Inl e)
      | Inr parent \<Rightarrow>
          (case SubtaskCreateSerializer_validate d of
             Inl e \<Rightarrow> (s, Inl e)
           | Inr v \<Rightarrow>
               (case Task_create s (sub_id v) (subtask_row parent request_user v) of
                  (s1, Inl e) \<Rightarrow> (s1, Inl e)
                | (s1, Inr t) \<Rightarrow> (s1, Inr ''Subtask created successfully''))))"

section \<open>Setting the password (serializers.py, views.py)\<close>

text \<open>
  The body of \<open>POST /set-password/\<close>. An e-mail address of a request is a string that
  \<open>EmailField\<close> accepts as an address, or one it does not.
\<close>

datatype email_input = EmailValue string | EmailMalformed

record set_password_data =
  sp_user_id :: "string option"
  sp_email :: "email_input option"
  sp_password :: "string option"

text \<open>
  The declared fields of \<open>SetPasswordSerializer\<close>: three required character fields (an
  \<open>EmailField\<close> is a character field with the check of the address added), none of which
  may be blank or contain the null character; the values are trimmed.
\<close>

definition SetPasswordSerializer_fields ::
  "set_password_data \<Rightarrow> error + (string \<times> string \<times> string)" where
  "SetPasswordSerializer_fields d =
     (case sp_user_id d of
        None \<Rightarrow> Inl (ValidationError ''user_id'')
      | Some raw_uid \<Rightarrow>
          (case CharField False None raw_uid of
             None \<Rightarrow> Inl (ValidationError ''user_id'')
           | Some uid \<Rightarrow>
               (case sp_email d of
                  Some (EmailValue raw_em) \<Rightarrow>
                    (case CharField False None raw_em of
                       None \<Rightarrow> Inl (ValidationError ''email'')
                     | Some em \<Rightarrow>
                         (case sp_password d of
                            None \<Rightarrow> Inl (ValidationError ''password'')
                          | Some raw_pw \<Rightarrow>
                              (case CharField False None raw_pw of
                                 None \<Rightarrow> Inl (ValidationError ''password'')
                               | Some pw \<Rightarrow> Inr (uid, em, pw))))
                | _ \<Rightarrow> Inl (ValidationError ''email''))))"

text \<open>\<open>user.has_usable_password()\<close>.\<close>

definition has_usable_password :: "user \<Rightarrow> bool" where
  "has_usable_password u = (case password u of Unusable \<Rightarrow> False | Usable h \<Rightarrow> True)"

text \<open>
  \<open>user.set_password(raw)\<close>: the stored hash is usable; it is represented by the password
  it was made from.
\<close>

definition set_password :: "user \<Rightarrow> string \<Rightarrow> user" where
  "set_password u raw = u\<lparr>password := Usable raw\<rparr>"

text \<open>\<open>user.save()\<close> of a user that has a primary key: update the row, insert if none.\<close>

definition User_save :: "store \<Rightarrow> user \<Rightarrow> store" where
  "User_save s row =
     (if user_pk row \<in> set (map user_pk (users s))
      then s\<lparr>users := map (\<lambda>u. if user_pk u = user_pk row then row else u) (users s)\<rparr>
      else s\<lparr>users := users s @ [row]\<rparr>)"

text \<open>
  \<open>SetPasswordSerializer.validate\<close>: \<open>User.objects.get(user_id=..., email=...)\<close>, with
  \<open>DoesNotExist\<close> turned into a validation error; then the check of the credential.
\<close>

definition SetPasswordSerializer_validate :: "store \<Rightarrow> string \<Rightarrow> string \<Rightarrow> error + user" where
  "SetPasswordSerializer_validate s uid em =
     (case filter (\<lambda>u. user_id u = uid \<and> email u = em) (users s) of
        [] \<Rightarrow> Inl (ValidationError ''User not found'')
      | [u] \<Rightarrow>
          if has_usable_password u then Inl (ValidationError ''Password already set'')
          else Inr u
      | _ \<Rightarrow> Inl MultipleObjectsReturned)"

text \<open>\<open>SetPasswordSerializer.save\<close>.\<close>

definition SetPasswordSerializer_save :: "store \<Rightarrow> user \<Rightarrow> string \<Rightarrow> store \<times> user" where
  "SetPasswordSerializer_save s u pw =
     (let u1 = set_password u pw;
          u2 = u1\<lparr>is_active := True\<rparr>
      in (User_save s u2, u2))"

text \<open>\<open>SetPasswordAPI.post\<close>.\<close>

definition SetPasswordAPI_post :: "store \<Rightarrow> set_password_data \<Rightarrow> string result" where
  "SetPasswordAPI_post s d =
     (case SetPasswordSerializer_fields d of
        Inl e \<Rightarrow> (s, Inl e)
      | Inr (uid, em, pw) \<Rightarrow>
          (case SetPasswordSerializer_validate s uid em of
             Inl e \<Rightarrow> (s, Inl e)
           | Inr u \<Rightarrow>
               (fst (SetPasswordSerializer_save s u pw), Inr ''Password set successfully'')))"

section \<open>Permissions and teams (permissions.py, serializers.py, views.py)\<close>

text \<open>
  The user of a request is an authenticated user or the anonymous user (\<open>None\<close>). The
  permission classes that the views name: \<open>IsAuthenticated\<close> of the framework, the three role
  checks of permissions.py, and \<open>IsTeamCreator\<close> as views.py defines it, which has an object
  check only, so its \<open>has_permission\<close> is the default \<open>True\<close>.
\<close>

datatype permission = IsAuthenticated | IsAdmin | IsTeamLead | IsAdminOrTeamLead | IsTeamCreator

fun has_permission :: "permission \<Rightarrow> user option \<Rightarrow> bool" where
  "has_permission IsAuthenticated ru = (ru \<noteq> None)"
| "has_permission IsAdmin ru = (case ru of None \<Rightarrow> False | Some u \<Rightarrow> is_admin u)"
| "has_permission IsTeamLead ru = (case ru of None \<Rightarrow> False | Some u \<Rightarrow> is_teamlead u)"
| "has_permission IsAdminOrTeamLead ru =
     (case ru of None \<Rightarrow> False | Some u \<Rightarrow> is_admin u \<or> is_teamlead u)"
| "has_permission IsTeamCreator ru = True"

datatype action =
  ListAction | CreateAction | RetrieveAction | UpdateAction | PartialUpdateAction | DestroyAction

text \<open>\<open>UserViewSet.get_permissions\<close> and \<open>TeamViewSet.get_permissions\<close>.\<close>

definition UserViewSet_get_permissions :: "action \<Rightarrow> permission list" where
  "UserViewSet_get_permissions a =
     (if a = ListAction then [IsAuthenticated, IsAdminOrTeamLead]
      else if a \<in> set [CreateAction, UpdateAction, PartialUpdateAction, DestroyAction]
      then [IsAuthenticated, IsAdmin]
      else [IsAuthenticated])"

definition TeamViewSet_get_permissions :: "action \<Rightarrow> permission list" where
  "TeamViewSet_get_permissions a =
     (if a \<in> set [UpdateAction, PartialUpdateAction, DestroyAction]
      then [IsAuthenticated, IsTeamCreator]
      else [IsAuthenticated])"

text \<open>
  \<open>check_permissions\<close> of the framework: the request is refused as soon as one permission
  says no, with 401 for an anonymous user and 403 otherwise.
\<close>

definition check_permissions :: "permission list \<Rightarrow> user option \<Rightarrow> error option" where
  "check_permissions perms ru =
     (if list_all (\<lambda>p. has_permission p ru) perms then None
      else if ru = None then Some NotAuthenticated else Some PermissionDenied)"

text \<open>
  The body of \<open>POST /teams/\<close> and \<open>CreateTeamSerializer\<close>: \<open>name\<close> is required, not blank and
  at most 100 characters, \<open>description\<close> is optional and may be blank, \<open>members\<close> is an optional
  list of \<open>user_id\<close> slugs, each of which must name a user.
\<close>

record team_data =
  tm_name :: "string option"
  tm_description :: "string option"
  tm_members :: "string list option"

fun slugs_to_users :: "store \<Rightarrow> string list \<Rightarrow> error + user list" where
  "slugs_to_users s [] = Inr []"
| "slugs_to_users s (g # gs) =
     (case filter (\<lambda>u. user_id u = g) (users s) of
        [] \<Rightarrow> Inl (ValidationError ''members'')
      | [u] \<Rightarrow>
          (case slugs_to_users s gs of
             Inl e \<Rightarrow> Inl e
           | Inr us \<Rightarrow> Inr (u # us))
      | _ \<Rightarrow> Inl MultipleObjectsReturned)"

definition CreateTeamSerializer_validate ::
  "store \<Rightarrow> team_data \<Rightarrow> error + (string \<times> string option \<times> user list option)" where
  "CreateTeamSerializer_validate s d =
     (case tm_name d of
        None \<Rightarrow> Inl (ValidationError ''name'')
      | Some raw \<Rightarrow>
          (case CharField False (Some 100) raw of
             None \<Rightarrow> Inl (ValidationError ''name'')
           | Some nm \<Rightarrow>
               (case optional_CharField (tm_description d) of
                  None \<Rightarrow> Inl (ValidationError ''description'')
                | Some descr \<Rightarrow>
                    (case tm_members d of
                       None \<Rightarrow> Inr (nm, descr, None)
                     | Some gs \<Rightarrow>
                         (case slugs_to_users s gs of
                            Inl e \<Rightarrow> Inl e
                          | Inr us \<Rightarrow> Inr (nm, descr, Some us))))))"

text \<open>\<open>team.members.add(*us)\<close>: a user who is a member already is not added again.\<close>

fun members_add :: "int list \<Rightarrow> user list \<Rightarrow> int list" where
  "members_add ms [] = ms"
| "members_add ms (u # us) =
     members_add (if user_pk u \<in> set ms then ms else ms @ [user_pk u]) us"

text \<open>
  \<open>TeamViewSet.perform_create\<close>. \<open>serializer.save(created_by=self.request.user)\<close> inserts the
  team and sets the validated members; then the caller is added, and the members once more.
\<close>

definition TeamViewSet_perform_create ::
  "store \<Rightarrow> user \<Rightarrow> string \<Rightarrow> string option \<Rightarrow> user list option \<Rightarrow> store \<times> team" where
  "TeamViewSet_perform_create s request_user nm descr mem =
     (let m0 = (case mem of None \<Rightarrow> [] | Some us \<Rightarrow> members_add [] us);
          m1 = members_add m0 [request_user];
          m2 = (case mem of None \<Rightarrow> m1 | Some us \<Rightarrow> members_add m1 us);
          tm = \<lparr>team_pk = next_pk (map team_pk (teams s)), team_name = nm,
                team_description = (case descr of None \<Rightarrow> [] | Some x \<Rightarrow> x),
                team_created_by = user_pk request_user, members = m2\<rparr>
      in (s\<lparr>teams := teams s @ [tm]\<rparr>, tm))"

text \<open>
  \<open>TeamViewSet\<close>, POST \<open>/teams/\<close>: the permissions of the action \<open>create\<close>, the validation of
  the body, \<open>perform_create\<close>. The anonymous user never passes the permissions, all of which
  include \<open>IsAuthenticated\<close>.
\<close>

definition TeamViewSet_create :: "store \<Rightarrow> user option \<Rightarrow> team_data \<Rightarrow> team result" where
  "TeamViewSet_create s ru d =
     (case check_permissions (TeamViewSet_get_permissions CreateAction) ru of
        Some e \<Rightarrow> (s, Inl e)
      | None \<Rightarrow>
          (case ru of
             None \<Rightarrow> (s, Inl NotAuthenticated)
           | Some request_user \<Rightarrow>
               (case CreateTeamSerializer_validate s d of
                  Inl e \<Rightarrow> (s, Inl e)
                | Inr (nm, descr, mem) \<Rightarrow>
                    (case TeamViewSet_perform_create s request_user nm descr mem of
                       (s1, tm) \<Rightarrow> (s1, Inr tm)))))"

section \<open>Example data\<close>

definition alice :: user where
  "alice = \<lparr>user_pk = 1, user_id = ''alice'', email = ''alice@example.org'',
            is_admin = False, is_teamlead = False, is_active = True, is_staff = False,
            password = Usable ''pw-a''\<rparr>"

definition bob :: user where
  "bob = \<lparr>user_pk = 2, user_id = ''bob'', email = ''bob@example.org'',
          is_admin = False, is_teamlead = False, is_active = True, is_staff = False,
          password = Usable ''pw-b''\<rparr>"

definition carol :: user where
  "carol = \<lparr>user_pk = 3, user_id = ''carol'', email = ''carol@example.org'',
            is_admin = False, is_teamlead = False, is_active = False, is_staff = False,
            password = Unusable\<rparr>"

definition store0 :: store where
  "store0 = \<lparr>users = [alice, bob, carol], teams = [], tasks = [], todos = [],
             conversations = [], messages = []\<rparr>"

definition conv12 :: conversation where
  "conv12 = \<lparr>conv_pk = 1, user1 = 1, user2 = 2\<rparr>"

definition store1 :: store where
  "store1 = store0\<lparr>conversations := [conv12]\<rparr>"

definition msg1 :: message where
  "msg1 = \<lparr>msg_pk = 1, conversation = 1, sender = 2, msg_text = ''second'', is_read = False,
           timestamp = 20\<rparr>"

definition msg2 :: message where
  "msg2 = \<lparr>msg_pk = 2, conversation = 1, sender = 1, msg_text = ''first'', is_read = False,
           timestamp = 10\<rparr>"

definition store2 :: store where
  "store2 = store1\<lparr>messages := [msg1, msg2]\<rparr>"

definition hi_data :: message_data where
  "hi_data = \<lparr>data_conversation = Some 1, data_text = Some ''hi'', data_is_read = None\<rparr>"

definition task1 :: task where
  "task1 = \<lparr>task_pk = 1, title = ''release'', description = [], created_by = 1,
            parent_task = None, estimated_start_date = 10, estimated_end_date = 20,
            priority = ''HIGH'', status = ''PENDING''\<rparr>"

definition task2 :: task where
  "task2 = \<lparr>task_pk = 2, title = ''draft notes'', description = [], created_by = 1,
            parent_task = Some 1, estimated_start_date = 10, estimated_end_date = 12,
            priority = ''LOW'', status = ''PENDING''\<rparr>"

definition task3 :: task where
  "task3 = \<lparr>task_pk = 3, title = ''audit'', description = [], created_by = 2,
            parent_task = None, estimated_start_date = 1, estimated_end_date = 2,
            priority = ''MEDIUM'', status = ''PENDING''\<rparr>"

definition store3 :: store where
  "store3 = store0\<lparr>tasks := [task1, task2, task3]\<rparr>"

definition good_sub :: subtask_data where
  "good_sub = \<lparr>d_id = None, d_title = Some ''write'', d_description = None,
               d_estimated_start_date = Some (DateValue 11),
               d_estimated_end_date = Some (DateValue 12),
               d_priority = Some ''LOW'', d_status = None\<rparr>"

definition bad_sub :: subtask_data where
  "bad_sub = \<lparr>d_id = None, d_title = Some ''review'', d_description = None,
              d_estimated_start_date = Some (DateValue 13),
              d_estimated_end_date = Some (DateValue 14),
              d_priority = Some ''URGENT'', d_status = None\<rparr>"

definition renamed_sub :: subtask_data where
  "renamed_sub = \<lparr>d_id = Some 2, d_title = Some ''final notes'', d_description = None,
                  d_estimated_start_date = Some (DateValue 10),
                  d_estimated_end_date = Some (DateValue 12),
                  d_priority = Some ''LOW'', d_status = Some ''COMPLETED''\<rparr>"

definition create_req :: task_data where
  "create_req = \<lparr>td_title = Some ''plan'', td_description = None,
                 td_estimated_start_date = Some (DateValue 10),
                 td_estimated_end_date = Some (DateValue 20),
                 td_priority = None, td_status = None,
                 td_subtasks_data = Some [good_sub, bad_sub]\<rparr>"

definition update_req :: task_data where
  "update_req = \<lparr>td_title = Some ''release 2'', td_description = None,
                 td_estimated_start_date = Some (DateValue 10),
                 td_estimated_end_date = Some (DateValue 20),
                 td_priority = Some ''HIGH'', td_status = None,
                 td_subtasks_data = Some [renamed_sub]\<rparr>"

definition carol_password_req :: set_password_data where
  "carol_password_req = \<lparr>sp_user_id = Some ''carol'',
                         sp_email = Some (EmailValue ''carol@example.org''),
                         sp_password = Some ''s3cret''\<rparr>"

definition alice_password_req :: set_password_data where
  "alice_password_req = \<lparr>sp_user_id = Some ''alice'',
                         sp_email = Some (EmailValue ''alice@example.org''),
                         sp_password = Some ''again''\<rparr>"

definition team_req :: team_data where
  "team_req = \<lparr>tm_name = Some ''core'', tm_description = None, tm_members = Some [''bob'']\<rparr>"

definition plan_req :: task_data where
  "plan_req = create_req\<lparr>td_subtasks_data := Some [good_sub]\<rparr>"

definition long_title :: string where
  "long_title = replicate 256 (CHR ''x'')"

definition long_sub :: subtask_data where
  "long_sub = good_sub\<lparr>d_title := Some long_title\<rparr>"

definition long_sub_req :: task_data where
  "long_sub_req = create_req\<lparr>td_subtasks_data := Some [long_sub]\<rparr>"

definition long_top_req :: task_data where
  "long_top_req = create_req\<lparr>td_title := Some long_title, td_subtasks_data := None\<rparr>"


section \<open>Auxiliary facts\<close>

lemma fold_max_ge: "a \<le> fold max ids (a::int)"
  by (induction ids arbitrary: a) (auto intro: order_trans [OF max.cobounded2])

lemma fold_max_mem: "i \<in> set ids \<Longrightarrow> i \<le> fold max ids (a::int)"
proof (induction ids arbitrary: a)
  case Nil
  then show ?case by simp
next
  case (Cons x xs)
  show ?case
  proof (cases "i = x")
    case True
    have "x \<le> max x a" by simp
    also have "\<dots> \<le> fold max xs (max x a)" by (rule fold_max_ge)
    finally show ?thesis using True by simp
  next
    case False
    with Cons.prems have "i \<in> set xs" by simp
    then show ?thesis using Cons.IH by simp
  qed
qed

lemma next_pk_fresh: "i \<in> set ids \<Longrightarrow> i < next_pk ids"
  using fold_max_mem [of i ids 0] by (simp add: next_pk_def)

lemma sorted_pair_fst:
  "user_pk (sort_key user_pk [a, b] ! 0) = min (user_pk a) (user_pk b)"
  by (simp add: min_def)

lemma sorted_pair_snd:
  "user_pk (sort_key user_pk [a, b] ! Suc 0) = max (user_pk a) (user_pk b)"
  by (simp add: max_def)

lemma Conversation_create_pk_only:
  "user_pk u1 = user_pk v1 \<Longrightarrow> user_pk u2 = user_pk v2 \<Longrightarrow>
   Conversation_create s (Some u1) (Some u2) = Conversation_create s (Some v1) (Some v2)"
  by (simp add: Conversation_create_def)

lemma Conversation_get_or_create_pk_only:
  "user_pk u1 = user_pk v1 \<Longrightarrow> user_pk u2 = user_pk v2 \<Longrightarrow>
   Conversation_get_or_create s u1 u2 = Conversation_get_or_create s v1 v2"
  by (simp add: Conversation_get_or_create_def Conversation_create_pk_only [of u1 v1 u2 v2]
      split: list.splits)

lemma get_or_create_conversation_commute:
  "get_or_create_conversation s a b = get_or_create_conversation s b a"
  unfolding get_or_create_conversation_def Let_def
  by (rule Conversation_get_or_create_pk_only) (auto)

lemma Conversation_filter_append:
  "Conversation_filter (s\<lparr>conversations := conversations s @ [c]\<rparr>) x y =
     Conversation_filter s x y @ (if user1 c = x \<and> user2 c = y then [c] else [])"
  by (simp add: Conversation_filter_def)

lemma Conversation_get_or_create_Inr:
  assumes "Conversation_get_or_create s u1 u2 = (s', Inr (c, created))"
    and "user_pk u1 \<le> user_pk u2"
  shows "Conversation_filter s' (user_pk u1) (user_pk u2) = [c]"
  using assms
  by (auto simp: Conversation_get_or_create_def Conversation_create_def Let_def
      Conversation_filter_append
      split: list.splits if_splits)

lemma Conversation_get_or_create_found:
  "Conversation_filter s (user_pk u1) (user_pk u2) = [c] \<Longrightarrow>
   Conversation_get_or_create s u1 u2 = (s, Inr (c, False))"
  by (simp add: Conversation_get_or_create_def)

lemma Conversation_filter_mem:
  "Conversation_filter s x y = [c] \<Longrightarrow> user1 c = x \<and> user2 c = y"
  using filter_eq_ConsD [of "\<lambda>c. user1 c = x \<and> user2 c = y" "conversations s" c "[]"]
  by (auto simp: Conversation_filter_def)

subsection \<open>C1: the conversation of a pair does not depend on the order of the arguments\<close>

text \<open>
  Claim C1. \<open>get_or_create_conversation(A, B)\<close> and \<open>get_or_create_conversation(B, A)\<close>
  resolve to the same conversation row. On every store the two calls have the same outcome
  and leave the same store; and once one of them has returned a row, the call with the
  arguments swapped returns that very row without creating one. The row holds the smaller
  id as \<open>user1\<close> and the larger one as \<open>user2\<close>.
\<close>

theorem C1_same_row:
  "get_or_create_conversation s a b = get_or_create_conversation s b a \<and>
   (get_or_create_conversation s a b = (s', Inr (c, created)) \<longrightarrow>
      get_or_create_conversation s' b a = (s', Inr (c, False)) \<and>
      user1 c = min (user_pk a) (user_pk b) \<and>
      user2 c = max (user_pk a) (user_pk b))"
proof (intro conjI impI)
  show "get_or_create_conversation s a b = get_or_create_conversation s b a"
    by (rule get_or_create_conversation_commute)
next
  assume h: "get_or_create_conversation s a b = (s', Inr (c, created))"
  define lo where "lo = sort_key user_pk [a, b] ! 0"
  define hi where "hi = sort_key user_pk [a, b] ! 1"
  have le: "user_pk lo \<le> user_pk hi" by (simp add: lo_def hi_def)
  from h have g: "Conversation_get_or_create s lo hi = (s', Inr (c, created))"
    by (simp add: get_or_create_conversation_def lo_def hi_def Let_def del: sort_key_simps)
  from Conversation_get_or_create_Inr [OF g le]
  have f: "Conversation_filter s' (user_pk lo) (user_pk hi) = [c]" .
  have "get_or_create_conversation s' b a = get_or_create_conversation s' a b"
    by (rule get_or_create_conversation_commute)
  also have "\<dots> = Conversation_get_or_create s' lo hi"
    by (simp add: get_or_create_conversation_def lo_def hi_def Let_def del: sort_key_simps)
  also have "\<dots> = (s', Inr (c, False))"
    by (rule Conversation_get_or_create_found [OF f])
  finally show "get_or_create_conversation s' b a = (s', Inr (c, False))" .
  from Conversation_filter_mem [OF f]
  show "user1 c = min (user_pk a) (user_pk b)" "user2 c = max (user_pk a) (user_pk b)"
    by (auto simp: lo_def hi_def)
qed

text \<open>
  C1 at a concrete input: alice (id 1) and bob (id 2) on a store without conversations.
\<close>

theorem C1_same_row_witness:
  "get_or_create_conversation store0 alice bob = (store1, Inr (conv12, True)) \<and>
   get_or_create_conversation store0 bob alice = (store1, Inr (conv12, True)) \<and>
   get_or_create_conversation store1 bob alice = (store1, Inr (conv12, False))"
proof -
  have h: "get_or_create_conversation store0 alice bob = (store1, Inr (conv12, True))"
    by (simp add: get_or_create_conversation_def Conversation_get_or_create_def
        Conversation_create_def Conversation_filter_def next_pk_def Let_def
        store0_def store1_def conv12_def alice_def bob_def)
  from C1_same_row [of store0 alice bob store1 conv12 True] h
  show ?thesis by simp
qed

subsection \<open>C2: the invariant of the conversation table\<close>

lemma pair_key_canonical: "user1 c \<le> user2 c \<Longrightarrow> pair_key c = (user1 c, user2 c)"
  by (simp add: pair_key_def)

lemma filter_empty_pair_key:
  assumes w: "canonical_weak s" and f: "Conversation_filter s x y = []"
  shows "(x, y) \<notin> set (map pair_key (conversations s))"
proof
  assume "(x, y) \<in> set (map pair_key (conversations s))"
  then obtain r where r: "r \<in> set (conversations s)" and k: "pair_key r = (x, y)" by auto
  from w r have "user1 r \<le> user2 r" by (simp add: canonical_weak_def list_all_iff)
  with k have "user1 r = x \<and> user2 r = y" by (simp add: pair_key_canonical)
  with r have "r \<in> set (Conversation_filter s x y)" by (simp add: Conversation_filter_def)
  with f show False by simp
qed

lemma Conversation_insert_weak:
  assumes w: "canonical_weak s" and u: "one_row_per_pair s"
    and f: "Conversation_filter s x y = []" and le: "x \<le> y"
  shows "canonical_weak (s\<lparr>conversations := conversations s @ [\<lparr>conv_pk = k, user1 = x, user2 = y\<rparr>]\<rparr>) \<and>
         one_row_per_pair (s\<lparr>conversations := conversations s @ [\<lparr>conv_pk = k, user1 = x, user2 = y\<rparr>]\<rparr>)"
  using filter_empty_pair_key [OF w f] w u le
  by (simp add: canonical_weak_def one_row_per_pair_def pair_key_def)

lemma Conversation_create_weak:
  assumes w: "canonical_weak s" and u: "one_row_per_pair s"
  shows "canonical_weak (fst (Conversation_create s u1 u2)) \<and>
         one_row_per_pair (fst (Conversation_create s u1 u2))"
proof (cases u1)
  case None
  then show ?thesis using w u by (simp add: Conversation_create_def)
next
  case (Some a)
  note u1 = this
  show ?thesis
  proof (cases u2)
    case None
    then show ?thesis using w u u1 by (simp add: Conversation_create_def)
  next
    case (Some b)
    define x where "x = (if user_pk a > user_pk b then user_pk b else user_pk a)"
    define y where "y = (if user_pk a > user_pk b then user_pk a else user_pk b)"
    have le: "x \<le> y" by (simp add: x_def y_def)
    show ?thesis
    proof (cases "Conversation_filter s x y = []")
      case True
      from Conversation_insert_weak [OF w u True le] True u1 Some
      show ?thesis by (simp add: Conversation_create_def Let_def x_def y_def)
    next
      case False
      with w u u1 Some show ?thesis
        by (simp add: Conversation_create_def Let_def x_def y_def)
    qed
  qed
qed

lemma Conversation_create_strict:
  assumes "canonical_strict s" "user_pk a \<noteq> user_pk b"
  shows "canonical_strict (fst (Conversation_create s (Some a) (Some b)))"
  using assms
  by (auto simp: Conversation_create_def Let_def canonical_strict_def)

lemma fst_Conversation_get_or_create:
  "fst (Conversation_get_or_create s u1 u2) = s \<or>
   fst (Conversation_get_or_create s u1 u2) = fst (Conversation_create s (Some u1) (Some u2))"
  by (auto simp: Conversation_get_or_create_def split: list.splits prod.splits sum.splits)

lemma strict_weak: "canonical_strict s \<Longrightarrow> canonical_weak s"
  by (auto simp: canonical_strict_def canonical_weak_def list_all_iff)

text \<open>
  Claim C2 as stated, with \<open>user1.id < user2.id\<close> for every stored row, fails: nothing keeps
  a user from opening a conversation with themself (\<open>/send/\<close> and \<open>/history/\<close> pass the
  caller and the user of the URL to \<open>get_or_create_conversation\<close> unchecked), and the row
  stored then has \<open>user1 = user2\<close>.
\<close>

theorem C2_counterexample:
  "canonical_strict store0 \<and> one_row_per_pair store0 \<and>
   conversations (fst (get_or_create_conversation store0 alice alice)) =
     [\<lparr>conv_pk = 1, user1 = 1, user2 = 1\<rparr>] \<and>
   \<not> canonical_strict (fst (get_or_create_conversation store0 alice alice)) \<and>
   \<not> canonical_strict (fst (SendMessageView_post store0 10 alice 1 (Some ''note'')))"
proof -
  have u: "User_get store0 1 = Inr alice"
    by (simp add: User_get_def store0_def alice_def bob_def carol_def)
  have g: "get_or_create_conversation store0 alice alice =
      (store0\<lparr>conversations := [\<lparr>conv_pk = 1, user1 = 1, user2 = 1\<rparr>]\<rparr>,
       Inr (\<lparr>conv_pk = 1, user1 = 1, user2 = 1\<rparr>, True))"
    by (simp add: get_or_create_conversation_def Conversation_get_or_create_def
      Conversation_create_def Conversation_filter_def next_pk_def Let_def
      store0_def alice_def)
  have i: "canonical_strict store0 \<and> one_row_per_pair store0"
    by (simp add: canonical_strict_def one_row_per_pair_def store0_def)
  have n: "\<not> canonical_strict (fst (SendMessageView_post store0 10 alice 1 (Some ''note'')))"
    by (simp add: SendMessageView_post_def u g Message_create_def Let_def canonical_strict_def)
  from i n show ?thesis by (simp add: g canonical_strict_def)
qed

text \<open>
  Claim C2, amended. Every operation that saves a conversation keeps \<open>user1.id \<le> user2.id\<close>
  in every row and at most one row per unordered pair of users: the \<open>save\<close> of a new
  conversation, \<open>get_or_create_conversation\<close>, and \<open>perform_create\<close> of the conversation
  list view (which raises before it stores anything). When the two users are distinct, the
  strict order \<open>user1.id < user2.id\<close> of every row is kept as well.
\<close>

theorem C2_invariant_preserved:
  "(canonical_weak s \<and> one_row_per_pair s \<longrightarrow>
      canonical_weak (fst (Conversation_create s u1 u2)) \<and>
      one_row_per_pair (fst (Conversation_create s u1 u2)) \<and>
      canonical_weak (fst (get_or_create_conversation s a b)) \<and>
      one_row_per_pair (fst (get_or_create_conversation s a b)) \<and>
      ConversationListCreateAPIView_perform_create s a = (s, Inl RelatedObjectDoesNotExist)) \<and>
   (canonical_strict s \<and> one_row_per_pair s \<and> user_pk a \<noteq> user_pk b \<longrightarrow>
      canonical_strict (fst (Conversation_create s (Some a) (Some b))) \<and>
      one_row_per_pair (fst (Conversation_create s (Some a) (Some b))) \<and>
      canonical_strict (fst (get_or_create_conversation s a b)) \<and>
      one_row_per_pair (fst (get_or_create_conversation s a b)))"
proof (intro conjI impI)
  assume inv: "canonical_weak s \<and> one_row_per_pair s"
  then have w: "canonical_weak s" and u: "one_row_per_pair s" by simp_all
  show "canonical_weak (fst (Conversation_create s u1 u2))"
    and "one_row_per_pair (fst (Conversation_create s u1 u2))"
    using Conversation_create_weak [OF w u] by simp_all
  define lo where "lo = sort_key user_pk [a, b] ! 0"
  define hi where "hi = sort_key user_pk [a, b] ! 1"
  have g: "get_or_create_conversation s a b = Conversation_get_or_create s lo hi"
    by (simp add: get_or_create_conversation_def lo_def hi_def Let_def del: sort_key_simps)
  from fst_Conversation_get_or_create [of s lo hi] Conversation_create_weak [OF w u, of "Some lo" "Some hi"] w u
  show "canonical_weak (fst (get_or_create_conversation s a b))"
    and "one_row_per_pair (fst (get_or_create_conversation s a b))"
    unfolding g by auto
  show "ConversationListCreateAPIView_perform_create s a = (s, Inl RelatedObjectDoesNotExist)"
    by (simp add: ConversationListCreateAPIView_perform_create_def Conversation_create_def)
next
  assume inv: "canonical_strict s \<and> one_row_per_pair s \<and> user_pk a \<noteq> user_pk b"
  then have st: "canonical_strict s" and u: "one_row_per_pair s" and ne: "user_pk a \<noteq> user_pk b"
    by simp_all
  have w: "canonical_weak s" by (rule strict_weak [OF st])
  show "canonical_strict (fst (Conversation_create s (Some a) (Some b)))"
    by (rule Conversation_create_strict [OF st ne])
  show "one_row_per_pair (fst (Conversation_create s (Some a) (Some b)))"
    using Conversation_create_weak [OF w u] by simp
  define lo where "lo = sort_key user_pk [a, b] ! 0"
  define hi where "hi = sort_key user_pk [a, b] ! 1"
  have g: "get_or_create_conversation s a b = Conversation_get_or_create s lo hi"
    by (simp add: get_or_create_conversation_def lo_def hi_def Let_def del: sort_key_simps)
  have ne': "user_pk lo \<noteq> user_pk hi" using ne by (auto simp: lo_def hi_def)
  from fst_Conversation_get_or_create [of s lo hi] Conversation_create_strict [OF st ne'] st
  show "canonical_strict (fst (get_or_create_conversation s a b))"
    unfolding g by auto
  from fst_Conversation_get_or_create [of s lo hi] Conversation_create_weak [OF w u, of "Some lo" "Some hi"] u
  show "one_row_per_pair (fst (get_or_create_conversation s a b))"
    unfolding g by auto
qed

text \<open>
  C2 at a concrete input: the store holding the conversation of alice and bob, to which carol
  and bob add theirs.
\<close>

theorem C2_invariant_preserved_witness:
  "canonical_strict store1 \<and> canonical_weak store1 \<and> one_row_per_pair store1 \<and>
   user_pk carol \<noteq> user_pk bob \<and>
   conversations (fst (get_or_create_conversation store1 carol bob)) =
     [conv12, \<lparr>conv_pk = 2, user1 = 2, user2 = 3\<rparr>] \<and>
   canonical_strict (fst (get_or_create_conversation store1 carol bob)) \<and>
   one_row_per_pair (fst (get_or_create_conversation store1 carol bob)) \<and>
   canonical_weak (fst (Conversation_create store1 (Some bob) (Some alice))) \<and>
   one_row_per_pair (fst (Conversation_create store1 (Some bob) (Some alice))) \<and>
   ConversationListCreateAPIView_perform_create store1 carol =
     (store1, Inl RelatedObjectDoesNotExist)"
proof -
  have h: "canonical_strict store1 \<and> one_row_per_pair store1 \<and> user_pk carol \<noteq> user_pk bob"
    by (simp add: canonical_strict_def one_row_per_pair_def store1_def store0_def conv12_def
        carol_def bob_def)
  have w: "canonical_weak store1 \<and> one_row_per_pair store1"
    by (simp add: canonical_weak_def one_row_per_pair_def store1_def store0_def conv12_def)
  have c: "conversations (fst (get_or_create_conversation store1 carol bob)) =
     [conv12, \<lparr>conv_pk = 2, user1 = 2, user2 = 3\<rparr>]"
    by (simp add: get_or_create_conversation_def Conversation_get_or_create_def
        Conversation_create_def Conversation_filter_def next_pk_def Let_def
        store1_def store0_def conv12_def carol_def bob_def)
  from C2_invariant_preserved [of store1 "Some bob" "Some alice" carol bob] h w c
  show ?thesis by simp
qed

subsection \<open>C6: listing the messages of a conversation\<close>

lemma Conversation_get_pk: "Conversation_get s cid = Inr c \<Longrightarrow> conv_pk c = cid"
proof -
  assume h: "Conversation_get s cid = Inr c"
  then have "filter (\<lambda>c. conv_pk c = cid) (conversations s) = [c]"
    by (auto simp: Conversation_get_def split: list.splits)
  from filter_eq_ConsD [OF this] show ?thesis by auto
qed

text \<open>
  Claim C6. For a stored conversation, \<open>listMessages\<close> (the queryset of
  \<open>MessageByConversationAPIView\<close>) is empty when the caller is neither \<open>user1\<close> nor
  \<open>user2\<close> of the conversation; when the caller is one of the two, it holds exactly the
  messages of that conversation, in non-decreasing order of \<open>timestamp\<close>.
\<close>

theorem C6_listMessages:
  assumes "Conversation_get s cid = Inr c"
  shows "(user_pk u \<noteq> user1 c \<and> user_pk u \<noteq> user2 c \<longrightarrow>
            MessageByConversationAPIView_get_queryset s u cid = Inr []) \<and>
         (user_pk u = user1 c \<or> user_pk u = user2 c \<longrightarrow>
            (\<exists>ms. MessageByConversationAPIView_get_queryset s u cid = Inr ms \<and>
                  mset ms = mset (filter (\<lambda>m. conversation m = cid) (messages s)) \<and>
                  sorted (map timestamp ms)))"
  using assms Conversation_get_pk [OF assms]
  by (auto simp: MessageByConversationAPIView_get_queryset_def messages_order_by_timestamp_def)

text \<open>
  C6 at a concrete input: the conversation of alice and bob with two messages stored out of
  order, listed by carol (not a participant) and by alice.
\<close>

theorem C6_listMessages_witness:
  "Conversation_get store2 1 = Inr conv12 \<and>
   MessageByConversationAPIView_get_queryset store2 carol 1 = Inr [] \<and>
   MessageByConversationAPIView_get_queryset store2 alice 1 = Inr [msg2, msg1] \<and>
   (\<exists>ms. MessageByConversationAPIView_get_queryset store2 alice 1 = Inr ms \<and>
         mset ms = mset (filter (\<lambda>m. conversation m = 1) (messages store2)) \<and>
         sorted (map timestamp ms))"
proof -
  have h: "Conversation_get store2 1 = Inr conv12"
    by (simp add: Conversation_get_def store2_def store1_def store0_def conv12_def)
  have p: "user_pk carol \<noteq> user1 conv12 \<and> user_pk carol \<noteq> user2 conv12"
    by (simp add: carol_def conv12_def)
  have q: "user_pk alice = user1 conv12" by (simp add: alice_def conv12_def)
  have r: "MessageByConversationAPIView_get_queryset store2 alice 1 = Inr [msg2, msg1]"
    unfolding MessageByConversationAPIView_get_queryset_def h
    by (simp add: messages_order_by_timestamp_def store2_def store1_def store0_def conv12_def
        msg1_def msg2_def alice_def)
  from C6_listMessages [OF h, of carol] C6_listMessages [OF h, of alice] h p q r
  show ?thesis by simp
qed


subsection \<open>C10: the chat history endpoint writes\<close>

lemma get_or_create_conversation_unfold:
  "get_or_create_conversation s a b =
     Conversation_get_or_create s (sort_key user_pk [a, b] ! 0) (sort_key user_pk [a, b] ! 1)"
  by (simp add: get_or_create_conversation_def Let_def del: sort_key_simps)

lemma Conversation_get_or_create_new:
  assumes "Conversation_filter s (user_pk u1) (user_pk u2) = []" "user_pk u1 \<le> user_pk u2"
  shows "Conversation_get_or_create s u1 u2 =
    (s\<lparr>conversations := conversations s @
        [\<lparr>conv_pk = next_pk (map conv_pk (conversations s)),
          user1 = user_pk u1, user2 = user_pk u2\<rparr>]\<rparr>,
     Inr (\<lparr>conv_pk = next_pk (map conv_pk (conversations s)),
            user1 = user_pk u1, user2 = user_pk u2\<rparr>, True))"
  using assms by (simp add: Conversation_get_or_create_def Conversation_create_def Let_def)

lemma no_messages_of_new_conversation:
  assumes "messages_refer_to_conversations s"
  shows "filter (\<lambda>m. conversation m = next_pk (map conv_pk (conversations s))) (messages s) = []"
proof -
  have "conversation m \<noteq> next_pk (map conv_pk (conversations s))" if "m \<in> set (messages s)" for m
  proof -
    from assms that have "conversation m \<in> set (map conv_pk (conversations s))"
      by (simp add: messages_refer_to_conversations_def list_all_iff)
    from next_pk_fresh [OF this] show ?thesis by simp
  qed
  then show ?thesis by (simp add: filter_empty_conv)
qed

text \<open>
  Claim C10. \<open>GET /history/{userId}/\<close> is not read-only: when the user of the URL exists and
  the store has no conversation for the canonical pair of the caller and that user, the view
  appends the canonical conversation row (smaller id first) and returns the empty message
  list; every other part of the store is unchanged. Messages are assumed to refer to stored
  conversations, as the foreign key of \<open>Message.conversation\<close> guarantees.
\<close>

theorem C10_history_creates_conversation:
  assumes u: "User_get s uid = Inr other"
    and f: "Conversation_filter s (min (user_pk caller) (user_pk other))
              (max (user_pk caller) (user_pk other)) = []"
    and r: "messages_refer_to_conversations s"
  shows "ChatHistoryView_get s caller uid =
    (s\<lparr>conversations := conversations s @
        [\<lparr>conv_pk = next_pk (map conv_pk (conversations s)),
          user1 = min (user_pk caller) (user_pk other),
          user2 = max (user_pk caller) (user_pk other)\<rparr>]\<rparr>,
     Inr [])"
proof -
  define lo where "lo = sort_key user_pk [caller, other] ! 0"
  define hi where "hi = sort_key user_pk [caller, other] ! 1"
  have lo: "user_pk lo = min (user_pk caller) (user_pk other)"
    and hi: "user_pk hi = max (user_pk caller) (user_pk other)"
    by (simp_all add: lo_def hi_def min_def max_def)
  have le: "user_pk lo \<le> user_pk hi" by (simp add: lo hi)
  from f have f': "Conversation_filter s (user_pk lo) (user_pk hi) = []" by (simp add: lo hi)
  have g: "get_or_create_conversation s caller other = Conversation_get_or_create s lo hi"
    unfolding lo_def hi_def by (rule get_or_create_conversation_unfold)
  show ?thesis
    using no_messages_of_new_conversation [OF r]
    by (simp add: ChatHistoryView_get_def u g Conversation_get_or_create_new [OF f' le]
        messages_order_by_timestamp_def lo hi)
qed

text \<open>
  C10 at a concrete input: alice asks for her history with carol, with whom she has no
  conversation yet.
\<close>

theorem C10_history_creates_conversation_witness:
  "User_get store2 3 = Inr carol \<and>
   Conversation_filter store2 (min (user_pk alice) (user_pk carol))
     (max (user_pk alice) (user_pk carol)) = [] \<and>
   messages_refer_to_conversations store2 \<and>
   ChatHistoryView_get store2 alice 3 =
     (store2\<lparr>conversations := [conv12, \<lparr>conv_pk = 2, user1 = 1, user2 = 3\<rparr>]\<rparr>, Inr [])"
proof -
  have u: "User_get store2 3 = Inr carol"
    by (simp add: User_get_def store2_def store1_def store0_def alice_def bob_def carol_def)
  have f: "Conversation_filter store2 (min (user_pk alice) (user_pk carol))
     (max (user_pk alice) (user_pk carol)) = []"
    by (simp add: Conversation_filter_def store2_def store1_def store0_def conv12_def
        alice_def carol_def)
  have r: "messages_refer_to_conversations store2"
    by (simp add: messages_refer_to_conversations_def store2_def store1_def store0_def
        conv12_def msg1_def msg2_def)
  have c: "conversations store2 = [conv12]" by (simp add: store2_def store1_def)
  have n: "next_pk [conv_pk conv12] = 2" by (simp add: next_pk_def conv12_def)
  have m: "min (user_pk alice) (user_pk carol) = 1 \<and> max (user_pk alice) (user_pk carol) = 3"
    by (simp add: alice_def carol_def)
  from C10_history_creates_conversation [OF u f r] u f r
  show ?thesis by (simp add: c n m)
qed

subsection \<open>C5: the sender of a message is a participant of its conversation\<close>

text \<open>
  Claim C5 fails on \<open>MessageByConversationAPIView.perform_create\<close>, which saves the message
  with \<open>sender=self.request.user\<close> without the participant check that \<open>get_queryset\<close> of
  the same view makes. Here carol (id 3) posts to the conversation of alice and bob: the
  message is stored with sender 3 and the invariant, which held before, is broken.
\<close>

theorem C5_non_participant_appends:
  "sender_is_participant store2 \<and>
   MessageByConversationAPIView_create store2 30 carol 1 hi_data =
     (store2\<lparr>messages := [msg1, msg2,
        \<lparr>msg_pk = 3, conversation = 1, sender = 3, msg_text = ''hi'', is_read = False,
          timestamp = 30\<rparr>]\<rparr>,
      Inr \<lparr>msg_pk = 3, conversation = 1, sender = 3, msg_text = ''hi'', is_read = False,
          timestamp = 30\<rparr>) \<and>
   \<not> sender_is_participant (fst (MessageByConversationAPIView_create store2 30 carol 1 hi_data))"
proof -
  have g: "Conversation_get store2 1 = Inr conv12"
    by (simp add: Conversation_get_def store2_def store1_def store0_def conv12_def)
  have s: "CharField False None ''hi'' = Some ''hi''"
    by (simp add: CharField_def strip_def is_space_def)
  have v: "MessageSerializer_validate store2 hi_data = Inr (conv12, ''hi'', False)"
    unfolding MessageSerializer_validate_def
    by (simp add: hi_data_def g s)
  have e: "MessageByConversationAPIView_create store2 30 carol 1 hi_data =
     (store2\<lparr>messages := [msg1, msg2,
        \<lparr>msg_pk = 3, conversation = 1, sender = 3, msg_text = ''hi'', is_read = False,
          timestamp = 30\<rparr>]\<rparr>,
      Inr \<lparr>msg_pk = 3, conversation = 1, sender = 3, msg_text = ''hi'', is_read = False,
          timestamp = 30\<rparr>)"
    unfolding MessageByConversationAPIView_create_def v
      MessageByConversationAPIView_perform_create_def g
    by (simp add: Message_create_def Let_def next_pk_def store2_def msg1_def msg2_def
        conv12_def carol_def)
  have i: "sender_is_participant store2"
    by (simp add: sender_is_participant_def store2_def store1_def store0_def conv12_def
        msg1_def msg2_def)
  have n: "\<not> sender_is_participant (store2\<lparr>messages := [msg1, msg2,
        \<lparr>msg_pk = 3, conversation = 1, sender = 3, msg_text = ''hi'', is_read = False,
          timestamp = 30\<rparr>]\<rparr>)"
    by (simp add: sender_is_participant_def store2_def store1_def store0_def conv12_def
        msg1_def msg2_def)
  from e i n show ?thesis by simp
qed

text \<open>
  The other path that appends a message, \<open>SendMessageView.post\<close>, keeps the invariant: the
  conversation it writes to is the one resolved for the caller.
\<close>

lemma sender_is_participant_mono:
  assumes "sender_is_participant s" "messages s' = messages s"
    "set (conversations s) \<subseteq> set (conversations s')"
  shows "sender_is_participant s'"
  using assms unfolding sender_is_participant_def list_all_iff list_ex_iff by fastforce

lemma fst_Conversation_create_conversations:
  "messages (fst (Conversation_create s u1 u2)) = messages s \<and>
   set (conversations s) \<subseteq> set (conversations (fst (Conversation_create s u1 u2)))"
  by (auto simp: Conversation_create_def Let_def split: option.splits)

lemma fst_get_or_create_conversation_grows:
  "messages (fst (get_or_create_conversation s a b)) = messages s \<and>
   set (conversations s) \<subseteq> set (conversations (fst (get_or_create_conversation s a b)))"
  using fst_Conversation_get_or_create
    [of s "sort_key user_pk [a, b] ! 0" "sort_key user_pk [a, b] ! 1"]
    fst_Conversation_create_conversations
    [of s "Some (sort_key user_pk [a, b] ! 0)" "Some (sort_key user_pk [a, b] ! 1)"]
  unfolding get_or_create_conversation_unfold by auto

lemma get_or_create_conversation_row:
  assumes "get_or_create_conversation s a b = (s1, Inr (c, created))"
  shows "c \<in> set (conversations s1) \<and> (user_pk a = user1 c \<or> user_pk a = user2 c)"
proof -
  define lo where "lo = sort_key user_pk [a, b] ! 0"
  define hi where "hi = sort_key user_pk [a, b] ! 1"
  have le: "user_pk lo \<le> user_pk hi" by (simp add: lo_def hi_def)
  from assms have g: "Conversation_get_or_create s lo hi = (s1, Inr (c, created))"
    unfolding get_or_create_conversation_unfold lo_def hi_def .
  from Conversation_get_or_create_Inr [OF g le]
  have f: "Conversation_filter s1 (user_pk lo) (user_pk hi) = [c]" .
  then have "c \<in> set (Conversation_filter s1 (user_pk lo) (user_pk hi))" by simp
  then have m: "c \<in> set (conversations s1)" by (simp add: Conversation_filter_def)
  from Conversation_filter_mem [OF f] have "user_pk a = user1 c \<or> user_pk a = user2 c"
    by (auto simp: lo_def hi_def split: if_splits)
  with m show ?thesis by simp
qed

lemma SendMessageView_post_sender_is_participant:
  assumes inv: "sender_is_participant s"
  shows "sender_is_participant (fst (SendMessageView_post s now u rid txt))"
proof (cases "User_get s rid")
  case (Inl e)
  then show ?thesis using inv by (simp add: SendMessageView_post_def)
next
  case (Inr receiver)
  obtain s1 r where g: "get_or_create_conversation s u receiver = (s1, r)"
    by (cases "get_or_create_conversation s u receiver")
  from fst_get_or_create_conversation_grows [of s u receiver] g
  have "messages s1 = messages s" "set (conversations s) \<subseteq> set (conversations s1)" by simp_all
  from sender_is_participant_mono [OF inv this] have inv1: "sender_is_participant s1" .
  show ?thesis
  proof (cases r)
    case (Inl e)
    then show ?thesis using Inr g inv1 by (simp add: SendMessageView_post_def)
  next
    case (Inr cc)
    obtain c created where cc: "cc = (c, created)" by (cases cc)
    from get_or_create_conversation_row [of s u receiver s1 c created] g Inr cc
    have row: "c \<in> set (conversations s1)" "user_pk u = user1 c \<or> user_pk u = user2 c"
      by simp_all
    show ?thesis
    proof (cases "txt")
      case None
      then show ?thesis using \<open>User_get s rid = Inr receiver\<close> g Inr cc inv1
        by (simp add: SendMessageView_post_def)
    next
      case (Some t)
      then show ?thesis using \<open>User_get s rid = Inr receiver\<close> g Inr cc inv1 row
        by (auto simp: SendMessageView_post_def Message_create_def Let_def
            sender_is_participant_def list_ex_iff)
    qed
  qed
qed

subsection \<open>C8: adding a subtask\<close>

text \<open>
  Claim C8. When the task addressed by \<open>add_subtask\<close> does not exist, is not owned by the
  caller, or has a parent task itself, the request fails with not-found and no row is
  created: the store is unchanged. In particular it never succeeds on a subtask.
\<close>

theorem C8_add_subtask_not_found:
  assumes "\<forall>t \<in> set (tasks s). task_pk t = pk \<longrightarrow>
             created_by t \<noteq> user_pk u \<or> parent_task t \<noteq> None"
  shows "TaskViewSet_add_subtask s u pk d = (s, Inl Http404)"
proof -
  have "filter (\<lambda>t. task_pk t = pk \<and> created_by t = user_pk u \<and>
                    (if True then parent_task t = None else True)) (tasks s) = []"
    using assms by (auto simp: filter_empty_conv)
  then show ?thesis
    by (simp add: TaskViewSet_add_subtask_def Task_get_object_or_404_def)
qed

text \<open>
  C8 at concrete inputs, one for each case: an id that no task has, a task of bob, and a
  subtask of alice herself.
\<close>

theorem C8_add_subtask_not_found_witness:
  "TaskViewSet_add_subtask store3 alice 99 good_sub = (store3, Inl Http404) \<and>
   TaskViewSet_add_subtask store3 alice 3 good_sub = (store3, Inl Http404) \<and>
   TaskViewSet_add_subtask store3 alice 2 good_sub = (store3, Inl Http404)"
proof -
  have t: "tasks store3 = [task1, task2, task3]" by (simp add: store3_def)
  have a: "\<forall>t \<in> set (tasks store3). task_pk t = 99 \<longrightarrow>
             created_by t \<noteq> user_pk alice \<or> parent_task t \<noteq> None"
    by (simp add: t task1_def task2_def task3_def)
  have b: "\<forall>t \<in> set (tasks store3). task_pk t = 3 \<longrightarrow>
             created_by t \<noteq> user_pk alice \<or> parent_task t \<noteq> None"
    by (simp add: t task1_def task2_def task3_def alice_def)
  have c: "\<forall>t \<in> set (tasks store3). task_pk t = 2 \<longrightarrow>
             created_by t \<noteq> user_pk alice \<or> parent_task t \<noteq> None"
    by (simp add: t task1_def task2_def task3_def)
  from C8_add_subtask_not_found [OF a] C8_add_subtask_not_found [OF b]
    C8_add_subtask_not_found [OF c]
  show ?thesis by simp
qed

subsection \<open>C4: updating a task and its subtasks\<close>

text \<open>
  The subtask serializer never hands an \<open>id\<close> to \<open>TaskSerializer.update\<close>, although the
  loop of \<open>update\<close> would update a subtask of the instance in place if it were given its id.
\<close>

lemma SubtaskCreateSerializer_validate_drops_id:
  "SubtaskCreateSerializer_validate d = Inr v \<Longrightarrow> sub_id v = None"
  by (auto simp: SubtaskCreateSerializer_validate_def Let_def
      split: option.splits if_splits date_input.splits)

lemma validate_subtasks_drop_id:
  "validate_subtasks ds = Inr vs \<Longrightarrow> v \<in> set vs \<Longrightarrow> sub_id v = None"
proof (induction ds arbitrary: vs)
  case Nil
  then show ?case by simp
next
  case (Cons d ds)
  from Cons.prems(1) obtain w ws where w: "SubtaskCreateSerializer_validate d = Inr w"
    and ws: "validate_subtasks ds = Inr ws" and vs: "vs = w # ws"
    by (auto split: sum.splits)
  from Cons.prems(2) vs have "v = w \<or> v \<in> set ws" by simp
  then show ?case
    using SubtaskCreateSerializer_validate_drops_id [OF w] Cons.IH [OF ws] by auto
qed

lemma update_subtask_known_id_in_place:
  assumes k: "sub_id sub = Some k" "k \<noteq> 0"
    and f: "filter (\<lambda>t. Some (task_pk t) = sub_id sub \<and>
                        parent_task t = Some (task_pk inst)) (tasks s) = t # rest"
  shows "snd (update_subtask s inst u sub) = Inr () \<and>
         length (tasks (fst (update_subtask s inst u sub))) = length (tasks s)"
proof -
  from f have "t \<in> set (filter (\<lambda>t. Some (task_pk t) = sub_id sub \<and>
                        parent_task t = Some (task_pk inst)) (tasks s))" by simp
  then have "t \<in> set (tasks s)" by simp
  then have "task_pk t \<in> set (map task_pk (tasks s))" by simp
  then show ?thesis using k f
    by (simp add: update_subtask_def Task_save_def)
qed

lemma update_subtask_without_id_creates:
  assumes "sub_id sub = None"
  shows "update_subtask s inst u sub =
    (s\<lparr>tasks := tasks s @
        [(subtask_row inst u sub)\<lparr>task_pk := next_pk (map task_pk (tasks s))\<rparr>]\<rparr>, Inr ())"
  using assms by (simp add: update_subtask_def Task_create_def Let_def)

lemma CharField_release_2: "CharField False (Some 255) ''release 2'' = Some ''release 2''"
  by (simp add: CharField_def strip_def is_space_def)

lemma CharField_final_notes: "CharField False None ''final notes'' = Some ''final notes''"
  by (simp add: CharField_def strip_def is_space_def)

lemma validate_renamed_sub:
  "SubtaskCreateSerializer_validate renamed_sub =
     Inr \<lparr>sub_id = None, sub_title = ''final notes'', sub_description = None,
          sub_estimated_start_date = 10, sub_estimated_end_date = 12,
          sub_priority = ''LOW'', sub_status = ''COMPLETED''\<rparr>"
  by (simp add: SubtaskCreateSerializer_validate_def renamed_sub_def CharField_final_notes
      optional_CharField_def
      PRIORITY_CHOICES_def STATUS_CHOICES_def)

lemma validate_update_req:
  "TaskSerializer_validate update_req =
     Inr (\<lparr>tf_title = ''release 2'', tf_description = None,
            tf_estimated_start_date = 10, tf_estimated_end_date = 20,
            tf_priority = Some ''HIGH'', tf_status = None\<rparr>,
          [\<lparr>sub_id = None, sub_title = ''final notes'', sub_description = None,
            sub_estimated_start_date = 10, sub_estimated_end_date = 12,
            sub_priority = ''LOW'', sub_status = ''COMPLETED''\<rparr>])"
  by (simp add: TaskSerializer_validate_def update_req_def CharField_release_2 optional_CharField_def
      valid_choice_def
      PRIORITY_CHOICES_def STATUS_CHOICES_def validate_renamed_sub)

text \<open>
  Claim C4 fails on an entry that carries the id of an existing subtask of the task. Here
  alice updates her task 1 with one entry carrying \<open>id = 2\<close>, the id of a subtask of task 1:
  the top-level fields are replaced, but subtask 2 is left as it was and a new subtask 4 is
  created from the entry.
\<close>

theorem C4_id_entry_creates_new_row:
  "task2 \<in> set (tasks store3) \<and> parent_task task2 = Some 1 \<and> d_id renamed_sub = Some 2 \<and>
   TaskViewSet_update store3 alice 1 update_req =
     (store3\<lparr>tasks :=
        [task1\<lparr>title := ''release 2''\<rparr>, task2, task3,
         \<lparr>task_pk = 4, title = ''final notes'', description = [], created_by = 1,
           parent_task = Some 1, estimated_start_date = 10, estimated_end_date = 12,
           priority = ''LOW'', status = ''COMPLETED''\<rparr>]\<rparr>,
      Inr (task1\<lparr>title := ''release 2''\<rparr>))"
proof -
  have g: "Task_get_object_or_404 store3 1 alice False = Inr task1"
    by (simp add: Task_get_object_or_404_def store3_def task1_def task2_def task3_def
        alice_def)
  have a: "task2 \<in> set (tasks store3) \<and> parent_task task2 = Some 1 \<and>
           d_id renamed_sub = Some 2"
    by (simp add: store3_def task2_def renamed_sub_def)
  have u: "TaskSerializer_update store3 alice task1
     \<lparr>tf_title = ''release 2'', tf_description = None,
            tf_estimated_start_date = 10, tf_estimated_end_date = 20,
            tf_priority = Some ''HIGH'', tf_status = None\<rparr>
     [\<lparr>sub_id = None, sub_title = ''final notes'', sub_description = None,
            sub_estimated_start_date = 10, sub_estimated_end_date = 12,
            sub_priority = ''LOW'', sub_status = ''COMPLETED''\<rparr>] =
     (store3\<lparr>tasks :=
        [task1\<lparr>title := ''release 2''\<rparr>, task2, task3,
         \<lparr>task_pk = 4, title = ''final notes'', description = [], created_by = 1,
           parent_task = Some 1, estimated_start_date = 10, estimated_end_date = 12,
           priority = ''LOW'', status = ''COMPLETED''\<rparr>]\<rparr>,
      Inr (task1\<lparr>title := ''release 2''\<rparr>))"
    by (simp add: TaskSerializer_update_def Let_def Task_save_def update_subtask_def
        Task_create_def subtask_row_def next_pk_def store3_def task1_def task2_def task3_def
        alice_def)
  show ?thesis
    using a by (simp add: TaskViewSet_update_def g validate_update_req u)
qed

subsection \<open>C7: creating a task with subtasks\<close>

text \<open>
  What the create path does guarantee: the generic \<open>create\<close> validates the whole body, the
  nested subtask entries included, before \<open>TaskSerializer.create\<close> inserts anything.
\<close>

lemma validate_subtasks_invalid:
  "p \<in> set ds \<Longrightarrow> SubtaskCreateSerializer_validate p = Inl e \<Longrightarrow>
   \<exists>e'. validate_subtasks ds = Inl e'"
proof (induction ds)
  case Nil
  then show ?case by simp
next
  case (Cons d ds)
  show ?case
  proof (cases "SubtaskCreateSerializer_validate d")
    case (Inl a)
    then show ?thesis by simp
  next
    case (Inr v)
    with Cons.prems have "p \<in> set ds" by auto
    from Cons.IH [OF this Cons.prems(2)] obtain e' where "validate_subtasks ds = Inl e'" ..
    with Inr show ?thesis by simp
  qed
qed

lemma TaskSerializer_validate_error:
  "TaskSerializer_validate d = Inl e \<Longrightarrow> \<exists>msg. e = ValidationError msg"
  by (auto simp: TaskSerializer_validate_def Let_def
      split: option.splits if_splits date_input.splits sum.splits)

lemma TaskSerializer_validate_invalid_subtask:
  assumes "td_subtasks_data d = Some ds" "p \<in> set ds"
    "SubtaskCreateSerializer_validate p = Inl e"
  shows "\<exists>msg. TaskSerializer_validate d = Inl (ValidationError msg)"
proof -
  from validate_subtasks_invalid [OF assms(2,3)] obtain e' where
    v: "validate_subtasks ds = Inl e'" ..
  have "\<exists>e. TaskSerializer_validate d = Inl e"
    using assms(1) v
    by (auto simp: TaskSerializer_validate_def Let_def
        split: option.splits if_splits date_input.splits)
  then obtain e2 where e2: "TaskSerializer_validate d = Inl e2" ..
  from TaskSerializer_validate_error [OF e2] e2 show ?thesis by auto
qed

lemma TaskSerializer_validate_subtasks:
  "TaskSerializer_validate d = Inr (v, subs) \<Longrightarrow>
   validate_subtasks (case td_subtasks_data d of None \<Rightarrow> [] | Some ds \<Rightarrow> ds) = Inr subs"
  by (auto simp: TaskSerializer_validate_def Let_def
      split: option.splits if_splits date_input.splits sum.splits)

lemma create_subtasks_without_ids:
  assumes "\<forall>sub \<in> set subs. sub_id sub = None"
  shows "\<exists>rows. create_subtasks s m u subs = (s\<lparr>tasks := tasks s @ rows\<rparr>, Inr ()) \<and>
           list_all2 (\<lambda>r sub. r = (subtask_row m u sub)\<lparr>task_pk := task_pk r\<rparr>) rows subs"
  using assms
proof (induction subs arbitrary: s)
  case Nil
  have "create_subtasks s m u [] = (s\<lparr>tasks := tasks s @ []\<rparr>, Inr ())" by simp
  then show ?case by (intro exI [of _ "[]"]) simp
next
  case (Cons sub subs)
  define t where "t = (subtask_row m u sub)\<lparr>task_pk := next_pk (map task_pk (tasks s))\<rparr>"
  define s1 where "s1 = s\<lparr>tasks := tasks s @ [t]\<rparr>"
  from Cons.prems have n: "sub_id sub = None" and rest: "\<forall>x \<in> set subs. sub_id x = None"
    by simp_all
  have c: "Task_create s (sub_id sub) (subtask_row m u sub) = (s1, Inr t)"
    by (simp add: Task_create_def n Let_def s1_def t_def)
  from Cons.IH [OF rest, of s1] obtain rows where
    r: "create_subtasks s1 m u subs = (s1\<lparr>tasks := tasks s1 @ rows\<rparr>, Inr ())"
    and l: "list_all2 (\<lambda>r sub. r = (subtask_row m u sub)\<lparr>task_pk := task_pk r\<rparr>) rows subs"
    by blast
  have "create_subtasks s m u (sub # subs) = (s\<lparr>tasks := tasks s @ t # rows\<rparr>, Inr ())"
    by (simp add: c r) (simp add: s1_def)
  moreover have "t = (subtask_row m u sub)\<lparr>task_pk := task_pk t\<rparr>" by (simp add: t_def)
  ultimately show ?case using l by (intro exI [of _ "t # rows"]) simp
qed

text \<open>
  A request with an entry that the subtask serializer rejects fails with a validation error
  on an unchanged store; a request whose body passes validation stores the task and then one
  subtask per entry, each with the task as its parent.
\<close>

lemma TaskViewSet_create_all_or_nothing:
  "(td_subtasks_data d = Some ds \<and> p \<in> set ds \<and>
    SubtaskCreateSerializer_validate p = Inl e \<longrightarrow>
      (\<exists>msg. TaskViewSet_create s u d = (s, Inl (ValidationError msg)))) \<and>
   (TaskSerializer_validate d = Inr (v, subs) \<longrightarrow>
      (\<exists>main rows.
          TaskViewSet_create s u d = (s\<lparr>tasks := tasks s @ main # rows\<rparr>, Inr main) \<and>
          main = \<lparr>task_pk = next_pk (map task_pk (tasks s)), title = tf_title v,
                  description = (case tf_description v of None \<Rightarrow> [] | Some x \<Rightarrow> x),
                  created_by = user_pk u, parent_task = None,
                  estimated_start_date = tf_estimated_start_date v,
                  estimated_end_date = tf_estimated_end_date v,
                  priority = (case tf_priority v of None \<Rightarrow> ''MEDIUM'' | Some x \<Rightarrow> x),
                  status = (case tf_status v of None \<Rightarrow> ''PENDING'' | Some x \<Rightarrow> x)\<rparr> \<and>
          list_all2 (\<lambda>r sub. r = (subtask_row main u sub)\<lparr>task_pk := task_pk r\<rparr>) rows subs))"
proof (intro conjI impI)
  assume h: "td_subtasks_data d = Some ds \<and> p \<in> set ds \<and>
    SubtaskCreateSerializer_validate p = Inl e"
  then have "\<exists>msg. TaskSerializer_validate d = Inl (ValidationError msg)"
    using TaskSerializer_validate_invalid_subtask [of d ds p e] by simp
  then obtain msg where "TaskSerializer_validate d = Inl (ValidationError msg)" ..
  then have "TaskViewSet_create s u d = (s, Inl (ValidationError msg))"
    by (simp add: TaskViewSet_create_def)
  then show "\<exists>msg. TaskViewSet_create s u d = (s, Inl (ValidationError msg))" ..
next
  assume ok: "TaskSerializer_validate d = Inr (v, subs)"
  define main where "main = \<lparr>task_pk = next_pk (map task_pk (tasks s)), title = tf_title v,
                  description = (case tf_description v of None \<Rightarrow> [] | Some x \<Rightarrow> x),
                  created_by = user_pk u, parent_task = None,
                  estimated_start_date = tf_estimated_start_date v,
                  estimated_end_date = tf_estimated_end_date v,
                  priority = (case tf_priority v of None \<Rightarrow> ''MEDIUM'' | Some x \<Rightarrow> x),
                  status = (case tf_status v of None \<Rightarrow> ''PENDING'' | Some x \<Rightarrow> x)\<rparr>"
  define s1 where "s1 = s\<lparr>tasks := tasks s @ [main]\<rparr>"
  have c: "Task_create s None
             \<lparr>task_pk = 0, title = tf_title v,
              description = (case tf_description v of None \<Rightarrow> [] | Some x \<Rightarrow> x),
              created_by = user_pk u, parent_task = None,
              estimated_start_date = tf_estimated_start_date v,
              estimated_end_date = tf_estimated_end_date v,
              priority = (case tf_priority v of None \<Rightarrow> ''MEDIUM'' | Some x \<Rightarrow> x),
              status = (case tf_status v of None \<Rightarrow> ''PENDING'' | Some x \<Rightarrow> x)\<rparr> =
           (s1, Inr main)"
    by (simp add: Task_create_def Let_def s1_def main_def)
  have ids: "\<forall>sub \<in> set subs. sub_id sub = None"
    using validate_subtasks_drop_id [OF TaskSerializer_validate_subtasks [OF ok]] by blast
  from create_subtasks_without_ids [OF ids, of s1 main u] obtain rows where
    r: "create_subtasks s1 main u subs = (s1\<lparr>tasks := tasks s1 @ rows\<rparr>, Inr ())"
    and l: "list_all2 (\<lambda>r sub. r = (subtask_row main u sub)\<lparr>task_pk := task_pk r\<rparr>) rows subs"
    by blast
  have "TaskViewSet_create s u d = (s\<lparr>tasks := tasks s @ main # rows\<rparr>, Inr main)"
    by (simp add: TaskViewSet_create_def ok TaskSerializer_create_def c r) (simp add: s1_def)
  with l show "\<exists>main rows.
          TaskViewSet_create s u d = (s\<lparr>tasks := tasks s @ main # rows\<rparr>, Inr main) \<and>
          main = \<lparr>task_pk = next_pk (map task_pk (tasks s)), title = tf_title v,
                  description = (case tf_description v of None \<Rightarrow> [] | Some x \<Rightarrow> x),
                  created_by = user_pk u, parent_task = None,
                  estimated_start_date = tf_estimated_start_date v,
                  estimated_end_date = tf_estimated_end_date v,
                  priority = (case tf_priority v of None \<Rightarrow> ''MEDIUM'' | Some x \<Rightarrow> x),
                  status = (case tf_status v of None \<Rightarrow> ''PENDING'' | Some x \<Rightarrow> x)\<rparr> \<and>
          list_all2 (\<lambda>r sub. r = (subtask_row main u sub)\<lparr>task_pk := task_pk r\<rparr>) rows subs"
    unfolding main_def [symmetric] by blast
qed

lemma strip_no_space:
  assumes "xs \<noteq> []" "\<not> is_space (hd xs)" "\<not> is_space (last xs)"
  shows "strip xs = xs"
proof -
  from assms(1,2) have a: "dropWhile is_space xs = xs" by (cases xs) simp_all
  from assms(1,3) have b: "dropWhile is_space (rev xs) = rev xs"
    by (cases "rev xs") (simp_all add: hd_rev [symmetric])
  show ?thesis by (simp add: strip_def a b)
qed

lemma strip_long_title: "strip long_title = long_title"
  by (rule strip_no_space) (simp_all add: long_title_def is_space_def)

lemma length_long_title: "length long_title = 256"
  by (simp add: long_title_def)

lemma CharField_long_title: "CharField False None long_title = Some long_title"
proof -
  have "long_title \<noteq> []" using length_long_title by auto
  moreover have "CHR 0x00 \<notin> set long_title" by (simp add: long_title_def)
  ultimately show ?thesis by (simp add: CharField_def strip_long_title)
qed

lemma CharField_255_long_title: "CharField False (Some 255) long_title = None"
proof -
  have "long_title \<noteq> []" using length_long_title by auto
  moreover have "CHR 0x00 \<notin> set long_title" by (simp add: long_title_def)
  ultimately show ?thesis by (simp add: CharField_def strip_long_title length_long_title)
qed

lemma CharField_plan: "CharField False (Some 255) ''plan'' = Some ''plan''"
  by (simp add: CharField_def strip_def is_space_def)

lemma CharField_write: "CharField False None ''write'' = Some ''write''"
  by (simp add: CharField_def strip_def is_space_def)

lemma CharField_review: "CharField False None ''review'' = Some ''review''"
  by (simp add: CharField_def strip_def is_space_def)

lemma validate_good_sub:
  "SubtaskCreateSerializer_validate good_sub =
     Inr \<lparr>sub_id = None, sub_title = ''write'', sub_description = None,
          sub_estimated_start_date = 11, sub_estimated_end_date = 12,
          sub_priority = ''LOW'', sub_status = ''PENDING''\<rparr>"
  by (simp add: SubtaskCreateSerializer_validate_def good_sub_def CharField_write
      optional_CharField_def PRIORITY_CHOICES_def STATUS_CHOICES_def)

lemma validate_long_sub:
  "SubtaskCreateSerializer_validate long_sub =
     Inr \<lparr>sub_id = None, sub_title = long_title, sub_description = None,
          sub_estimated_start_date = 11, sub_estimated_end_date = 12,
          sub_priority = ''LOW'', sub_status = ''PENDING''\<rparr>"
  by (simp add: SubtaskCreateSerializer_validate_def long_sub_def good_sub_def
      CharField_long_title optional_CharField_def PRIORITY_CHOICES_def STATUS_CHOICES_def)

lemma validate_bad_sub:
  "SubtaskCreateSerializer_validate bad_sub = Inl (ValidationError ''priority'')"
  by (simp add: SubtaskCreateSerializer_validate_def bad_sub_def CharField_review
      optional_CharField_def PRIORITY_CHOICES_def)

lemma validate_plan_req:
  "TaskSerializer_validate plan_req =
     Inr (\<lparr>tf_title = ''plan'', tf_description = None, tf_estimated_start_date = 10,
            tf_estimated_end_date = 20, tf_priority = None, tf_status = None\<rparr>,
          [\<lparr>sub_id = None, sub_title = ''write'', sub_description = None,
            sub_estimated_start_date = 11, sub_estimated_end_date = 12,
            sub_priority = ''LOW'', sub_status = ''PENDING''\<rparr>])"
  by (simp add: TaskSerializer_validate_def plan_req_def create_req_def CharField_plan
      optional_CharField_def valid_choice_def validate_good_sub)

lemma validate_long_sub_req:
  "TaskSerializer_validate long_sub_req =
     Inr (\<lparr>tf_title = ''plan'', tf_description = None, tf_estimated_start_date = 10,
            tf_estimated_end_date = 20, tf_priority = None, tf_status = None\<rparr>,
          [\<lparr>sub_id = None, sub_title = long_title, sub_description = None,
            sub_estimated_start_date = 11, sub_estimated_end_date = 12,
            sub_priority = ''LOW'', sub_status = ''PENDING''\<rparr>])"
  by (simp add: TaskSerializer_validate_def long_sub_req_def create_req_def CharField_plan
      optional_CharField_def valid_choice_def validate_long_sub)

text \<open>
  Both cases at concrete inputs: a valid entry followed by one whose priority is not a choice,
  and a request with the valid entry alone.
\<close>

lemma TaskViewSet_create_all_or_nothing_example:
  "td_subtasks_data create_req = Some [good_sub, bad_sub] \<and>
   bad_sub \<in> set [good_sub, bad_sub] \<and>
   SubtaskCreateSerializer_validate bad_sub = Inl (ValidationError ''priority'') \<and>
   (\<exists>msg. TaskViewSet_create store0 alice create_req = (store0, Inl (ValidationError msg))) \<and>
   TaskSerializer_validate plan_req =
     Inr (\<lparr>tf_title = ''plan'', tf_description = None, tf_estimated_start_date = 10,
            tf_estimated_end_date = 20, tf_priority = None, tf_status = None\<rparr>,
          [\<lparr>sub_id = None, sub_title = ''write'', sub_description = None,
            sub_estimated_start_date = 11, sub_estimated_end_date = 12,
            sub_priority = ''LOW'', sub_status = ''PENDING''\<rparr>]) \<and>
   (\<exists>main rows.
      TaskViewSet_create store0 alice plan_req =
        (store0\<lparr>tasks := tasks store0 @ main # rows\<rparr>, Inr main) \<and>
      title main = ''plan'' \<and> parent_task main = None \<and> length rows = 1)"
proof -
  have a: "td_subtasks_data create_req = Some [good_sub, bad_sub] \<and>
           bad_sub \<in> set [good_sub, bad_sub] \<and>
           SubtaskCreateSerializer_validate bad_sub = Inl (ValidationError ''priority'')"
    by (simp add: create_req_def validate_bad_sub)
  note t1 = TaskViewSet_create_all_or_nothing
    [of create_req "[good_sub, bad_sub]" bad_sub "ValidationError ''priority''" store0 alice]
  from conjunct1 [OF t1] a
  have 1: "\<exists>msg. TaskViewSet_create store0 alice create_req =
             (store0, Inl (ValidationError msg))"
    by blast
  note t2 = TaskViewSet_create_all_or_nothing
    [of plan_req _ _ _ store0 alice
      "\<lparr>tf_title = ''plan'', tf_description = None, tf_estimated_start_date = 10,
            tf_estimated_end_date = 20, tf_priority = None, tf_status = None\<rparr>"
      "[\<lparr>sub_id = None, sub_title = ''write'', sub_description = None,
            sub_estimated_start_date = 11, sub_estimated_end_date = 12,
            sub_priority = ''LOW'', sub_status = ''PENDING''\<rparr>]"]
  from conjunct2 [OF t2] validate_plan_req
  obtain main rows where
    r: "TaskViewSet_create store0 alice plan_req =
          (store0\<lparr>tasks := tasks store0 @ main # rows\<rparr>, Inr main)"
    and m: "main = \<lparr>task_pk = next_pk (map task_pk (tasks store0)), title = ''plan'',
                  description = [], created_by = user_pk alice, parent_task = None,
                  estimated_start_date = 10, estimated_end_date = 20,
                  priority = ''MEDIUM'', status = ''PENDING''\<rparr>"
    and l: "list_all2 (\<lambda>r sub. r = (subtask_row main alice sub)\<lparr>task_pk := task_pk r\<rparr>) rows
              [\<lparr>sub_id = None, sub_title = ''write'', sub_description = None,
                sub_estimated_start_date = 11, sub_estimated_end_date = 12,
                sub_priority = ''LOW'', sub_status = ''PENDING''\<rparr>]"
    by auto
  from l have "length rows = 1" by (auto dest: list_all2_lengthD)
  with r m have 2: "\<exists>main rows.
      TaskViewSet_create store0 alice plan_req =
        (store0\<lparr>tasks := tasks store0 @ main # rows\<rparr>, Inr main) \<and>
      title main = ''plan'' \<and> parent_task main = None \<and> length rows = 1"
    by auto
  from a 1 validate_plan_req 2 show ?thesis by (intro conjI) simp_all
qed

text \<open>
  Claim C7 fails on a subtask entry whose only defect is its title: \<open>Task.title\<close> is
  declared with \<open>max_length=255\<close> and \<open>TaskSerializer\<close> refuses a top-level title of 256
  characters, but \<open>SubtaskCreateSerializer\<close> declares \<open>title\<close> without a limit. The entry
  passes validation, and \<open>TaskSerializer.create\<close>, which opens no transaction, stores the
  top-level task and the subtask with the title of 256 characters.
\<close>

theorem C7_long_subtask_title_persisted:
  "d_title long_sub = Some long_title \<and> length long_title = 256 \<and>
   TaskSerializer_validate long_top_req = Inl (ValidationError ''title'') \<and>
   TaskViewSet_create store0 alice long_sub_req =
     (store0\<lparr>tasks :=
        [\<lparr>task_pk = 1, title = ''plan'', description = [], created_by = 1,
           parent_task = None, estimated_start_date = 10, estimated_end_date = 20,
           priority = ''MEDIUM'', status = ''PENDING''\<rparr>,
         \<lparr>task_pk = 2, title = long_title, description = [], created_by = 1,
           parent_task = Some 1, estimated_start_date = 11, estimated_end_date = 12,
           priority = ''LOW'', status = ''PENDING''\<rparr>]\<rparr>,
      Inr \<lparr>task_pk = 1, title = ''plan'', description = [], created_by = 1,
           parent_task = None, estimated_start_date = 10, estimated_end_date = 20,
           priority = ''MEDIUM'', status = ''PENDING''\<rparr>)"
proof -
  have a: "d_title long_sub = Some long_title" by (simp add: long_sub_def)
  have b: "TaskSerializer_validate long_top_req = Inl (ValidationError ''title'')"
    by (simp add: TaskSerializer_validate_def long_top_req_def create_req_def
        CharField_255_long_title)
  have c: "TaskViewSet_create store0 alice long_sub_req =
     (store0\<lparr>tasks :=
        [\<lparr>task_pk = 1, title = ''plan'', description = [], created_by = 1,
           parent_task = None, estimated_start_date = 10, estimated_end_date = 20,
           priority = ''MEDIUM'', status = ''PENDING''\<rparr>,
         \<lparr>task_pk = 2, title = long_title, description = [], created_by = 1,
           parent_task = Some 1, estimated_start_date = 11, estimated_end_date = 12,
           priority = ''LOW'', status = ''PENDING''\<rparr>]\<rparr>,
      Inr \<lparr>task_pk = 1, title = ''plan'', description = [], created_by = 1,
           parent_task = None, estimated_start_date = 10, estimated_end_date = 20,
           priority = ''MEDIUM'', status = ''PENDING''\<rparr>)"
    by (simp add: TaskViewSet_create_def validate_long_sub_req TaskSerializer_create_def
        Task_create_def Let_def subtask_row_def next_pk_def store0_def alice_def)
  from a b c length_long_title show ?thesis by simp
qed

subsection \<open>C9: the password is set once\<close>

lemma SetPasswordSerializer_validate_all_usable:
  assumes "\<forall>x \<in> set (filter (\<lambda>u. user_id u = uid \<and> email u = em) (users s)).
             has_usable_password x"
  shows "\<exists>e. SetPasswordSerializer_validate s uid em = Inl e"
proof (cases "filter (\<lambda>u. user_id u = uid \<and> email u = em) (users s)")
  case Nil
  then show ?thesis by (simp add: SetPasswordSerializer_validate_def)
next
  case (Cons x xs)
  show ?thesis
  proof (cases xs)
    case Nil
    with Cons assms have "has_usable_password x" by simp
    with Cons Nil show ?thesis by (simp add: SetPasswordSerializer_validate_def)
  next
    case (Cons y ys)
    with \<open>filter (\<lambda>u. user_id u = uid \<and> email u = em) (users s) = x # xs\<close>
    show ?thesis by (simp add: SetPasswordSerializer_validate_def)
  qed
qed

lemma filter_singleton_mem: "filter P xs = [u] \<Longrightarrow> u \<in> set xs \<and> P u"
  using filter_eq_ConsD [of P xs u "[]"] by auto

lemma filter_singleton_only: "filter P xs = [u] \<Longrightarrow> x \<in> set xs \<Longrightarrow> P x \<Longrightarrow> x = u"
proof -
  assume f: "filter P xs = [u]" and x: "x \<in> set xs" "P x"
  have "set (filter P xs) = {u}" by (simp only: f) simp
  with x show "x = u" by auto
qed

lemma User_save_existing:
  "u \<in> set (users s) \<Longrightarrow> user_pk u' = user_pk u \<Longrightarrow>
   User_save s u' = s\<lparr>users := map (\<lambda>x. if user_pk x = user_pk u then u' else x) (users s)\<rparr>"
  by (auto simp: User_save_def)

text \<open>
  Claim C9. For a request whose fields are well-formed and whose \<open>user_id\<close> and \<open>email\<close>
  select one user: when the credential of the user is usable already, set-password fails
  with the validation error \<open>Password already set\<close> and the store is unchanged; otherwise
  it succeeds, and the only change is that the rows of that user now hold a usable
  credential and \<open>is_active = True\<close>. After such a success every further set-password
  request for the same user fails and changes nothing: it succeeds at most once.
\<close>

theorem C9_set_password_once:
  assumes fl: "SetPasswordSerializer_fields d = Inr (uid, em, pw)"
    and lk: "filter (\<lambda>u. user_id u = uid \<and> email u = em) (users s) = [u]"
  shows "(has_usable_password u \<longrightarrow>
            SetPasswordAPI_post s d = (s, Inl (ValidationError ''Password already set''))) \<and>
         (\<not> has_usable_password u \<longrightarrow>
            SetPasswordAPI_post s d =
              (s\<lparr>users := map (\<lambda>x. if user_pk x = user_pk u
                                     then u\<lparr>password := Usable pw, is_active := True\<rparr>
                                     else x) (users s)\<rparr>,
               Inr ''Password set successfully'') \<and>
            (\<forall>d2 pw2. SetPasswordSerializer_fields d2 = Inr (uid, em, pw2) \<longrightarrow>
               (\<exists>e. SetPasswordAPI_post (fst (SetPasswordAPI_post s d)) d2 =
                      (fst (SetPasswordAPI_post s d), Inl e))))"
proof (intro conjI impI allI)
  assume "has_usable_password u"
  then show "SetPasswordAPI_post s d = (s, Inl (ValidationError ''Password already set''))"
    by (simp add: SetPasswordAPI_post_def fl SetPasswordSerializer_validate_def lk)
next
  assume nu: "\<not> has_usable_password u"
  define u2 where "u2 = u\<lparr>password := Usable pw, is_active := True\<rparr>"
  define s' where "s' = s\<lparr>users := map (\<lambda>x. if user_pk x = user_pk u then u2 else x) (users s)\<rparr>"
  from filter_singleton_mem [OF lk] have mem: "u \<in> set (users s)"
    and pu: "user_id u = uid \<and> email u = em" by simp_all
  have sv: "User_save s u2 = s'"
    unfolding s'_def by (rule User_save_existing [OF mem]) (simp add: u2_def)
  have v: "SetPasswordSerializer_validate s uid em = Inr u"
    using nu by (simp add: SetPasswordSerializer_validate_def lk)
  have post: "SetPasswordAPI_post s d = (s', Inr ''Password set successfully'')"
    using sv
    by (simp add: SetPasswordAPI_post_def fl v SetPasswordSerializer_save_def set_password_def
        Let_def u2_def)
  then show "SetPasswordAPI_post s d =
      (s\<lparr>users := map (\<lambda>x. if user_pk x = user_pk u
                             then u\<lparr>password := Usable pw, is_active := True\<rparr>
                             else x) (users s)\<rparr>,
       Inr ''Password set successfully'')"
    by (simp add: s'_def u2_def)
  fix d2 pw2
  assume fl2: "SetPasswordSerializer_fields d2 = Inr (uid, em, pw2)"
  have "\<forall>x \<in> set (filter (\<lambda>u. user_id u = uid \<and> email u = em) (users s')).
          has_usable_password x"
  proof
    fix x assume "x \<in> set (filter (\<lambda>u. user_id u = uid \<and> email u = em) (users s'))"
    then have xin: "x \<in> set (users s')" and px: "user_id x = uid \<and> email x = em" by simp_all
    from xin obtain y where y: "y \<in> set (users s)"
      and xy: "x = (if user_pk y = user_pk u then u2 else y)"
      by (auto simp: s'_def)
    show "has_usable_password x"
    proof (cases "user_pk y = user_pk u")
      case True
      with xy show ?thesis by (simp add: u2_def has_usable_password_def)
    next
      case False
      with xy have "x = y" by simp
      with px y filter_singleton_only [OF lk, of y] have "y = u" by simp
      with False show ?thesis by simp
    qed
  qed
  from SetPasswordSerializer_validate_all_usable [OF this] obtain e where
    "SetPasswordSerializer_validate s' uid em = Inl e" ..
  then have "SetPasswordAPI_post s' d2 = (s', Inl e)"
    by (simp add: SetPasswordAPI_post_def fl2)
  then show "\<exists>e. SetPasswordAPI_post (fst (SetPasswordAPI_post s d)) d2 =
      (fst (SetPasswordAPI_post s d), Inl e)"
    by (auto simp: post)
qed

lemma CharField_carol: "CharField False None ''carol'' = Some ''carol''"
  by (simp add: CharField_def strip_def is_space_def)

lemma CharField_carol_mail: "CharField False None ''carol@example.org'' = Some ''carol@example.org''"
  by (simp add: CharField_def strip_def is_space_def)

lemma CharField_s3cret: "CharField False None ''s3cret'' = Some ''s3cret''"
  by (simp add: CharField_def strip_def is_space_def)

lemma CharField_alice: "CharField False None ''alice'' = Some ''alice''"
  by (simp add: CharField_def strip_def is_space_def)

lemma CharField_alice_mail: "CharField False None ''alice@example.org'' = Some ''alice@example.org''"
  by (simp add: CharField_def strip_def is_space_def)

lemma CharField_again: "CharField False None ''again'' = Some ''again''"
  by (simp add: CharField_def strip_def is_space_def)

text \<open>
  C9 at concrete inputs: alice has a usable password; carol has none, sets it, and tries
  again.
\<close>

theorem C9_set_password_once_witness:
  "SetPasswordAPI_post store0 alice_password_req =
     (store0, Inl (ValidationError ''Password already set'')) \<and>
   SetPasswordAPI_post store0 carol_password_req =
     (store0\<lparr>users := [alice, bob, carol\<lparr>password := Usable ''s3cret'', is_active := True\<rparr>]\<rparr>,
      Inr ''Password set successfully'') \<and>
   (\<exists>e. SetPasswordAPI_post (fst (SetPasswordAPI_post store0 carol_password_req))
           carol_password_req =
         (fst (SetPasswordAPI_post store0 carol_password_req), Inl e))"
proof -
  have fa: "SetPasswordSerializer_fields alice_password_req =
              Inr (''alice'', ''alice@example.org'', ''again'')"
    by (simp add: SetPasswordSerializer_fields_def alice_password_req_def CharField_alice
        CharField_alice_mail CharField_again)
  have fc: "SetPasswordSerializer_fields carol_password_req =
              Inr (''carol'', ''carol@example.org'', ''s3cret'')"
    by (simp add: SetPasswordSerializer_fields_def carol_password_req_def CharField_carol
        CharField_carol_mail CharField_s3cret)
  have la: "filter (\<lambda>u. user_id u = ''alice'' \<and> email u = ''alice@example.org'')
              (users store0) = [alice]"
    by (simp add: store0_def alice_def bob_def carol_def)
  have lc: "filter (\<lambda>u. user_id u = ''carol'' \<and> email u = ''carol@example.org'')
              (users store0) = [carol]"
    by (simp add: store0_def alice_def bob_def carol_def)
  have ua: "has_usable_password alice" by (simp add: has_usable_password_def alice_def)
  have uc: "\<not> has_usable_password carol" by (simp add: has_usable_password_def carol_def)
  have m: "map (\<lambda>x. if user_pk x = user_pk carol
                     then carol\<lparr>password := Usable ''s3cret'', is_active := True\<rparr> else x)
             (users store0) =
           [alice, bob, carol\<lparr>password := Usable ''s3cret'', is_active := True\<rparr>]"
    by (simp add: store0_def alice_def bob_def carol_def)
  from C9_set_password_once [OF fa la] ua
  have 1: "SetPasswordAPI_post store0 alice_password_req =
     (store0, Inl (ValidationError ''Password already set''))" by simp
  from C9_set_password_once [OF fc lc] uc
  have c: "SetPasswordAPI_post store0 carol_password_req =
      (store0\<lparr>users := map (\<lambda>x. if user_pk x = user_pk carol
                             then carol\<lparr>password := Usable ''s3cret'', is_active := True\<rparr>
                             else x) (users store0)\<rparr>,
       Inr ''Password set successfully'') \<and>
      (\<forall>d2 pw2. SetPasswordSerializer_fields d2 =
                Inr (''carol'', ''carol@example.org'', pw2) \<longrightarrow>
              (\<exists>e. SetPasswordAPI_post (fst (SetPasswordAPI_post store0 carol_password_req)) d2 =
                    (fst (SetPasswordAPI_post store0 carol_password_req), Inl e)))"
    by blast
  from conjunct1 [OF c]
  have 2: "SetPasswordAPI_post store0 carol_password_req =
     (store0\<lparr>users := [alice, bob, carol\<lparr>password := Usable ''s3cret'', is_active := True\<rparr>]\<rparr>,
      Inr ''Password set successfully'')"
    by (simp only: m)
  note 3 = conjunct2 [OF c]
  from 3 fc have "\<exists>e. SetPasswordAPI_post (fst (SetPasswordAPI_post store0 carol_password_req))
           carol_password_req =
         (fst (SetPasswordAPI_post store0 carol_password_req), Inl e)"
    by blast
  with 1 2 show ?thesis by (intro conjI)
qed

subsection \<open>C3: who may create a team\<close>

text \<open>
  \<open>TeamViewSet.get_permissions\<close> answers \<open>[IsAuthenticated()]\<close> for the action \<open>create\<close>,
  so the permission check passes for every authenticated user.
\<close>

lemma TeamViewSet_create_permits_every_role:
  "check_permissions (TeamViewSet_get_permissions CreateAction) (Some u) = None"
  by (simp add: check_permissions_def TeamViewSet_get_permissions_def)

lemma CharField_core: "CharField False (Some 100) ''core'' = Some ''core''"
  by (simp add: CharField_def strip_def is_space_def)

text \<open>
  Claim C3 fails: alice is neither admin nor team lead, \<open>IsAdminOrTeamLead\<close> (documented in
  permissions.py as the permission used for team creation) would refuse her, and yet her
  \<open>POST /teams/\<close> is accepted and the team row is created.
\<close>

theorem C3_plain_user_creates_team:
  "\<not> is_admin alice \<and> \<not> is_teamlead alice \<and>
   \<not> has_permission IsAdminOrTeamLead (Some alice) \<and>
   TeamViewSet_create store0 (Some alice) team_req =
     (store0\<lparr>teams := [\<lparr>team_pk = 1, team_name = ''core'', team_description = [],
                          team_created_by = 1, members = [2, 1]\<rparr>]\<rparr>,
      Inr \<lparr>team_pk = 1, team_name = ''core'', team_description = [],
            team_created_by = 1, members = [2, 1]\<rparr>)"
proof -
  have r: "\<not> is_admin alice \<and> \<not> is_teamlead alice \<and>
           \<not> has_permission IsAdminOrTeamLead (Some alice)"
    by (simp add: alice_def)
  have v: "CreateTeamSerializer_validate store0 team_req = Inr (''core'', None, Some [bob])"
    by (simp add: CreateTeamSerializer_validate_def team_req_def CharField_core optional_CharField_def
        store0_def
        alice_def bob_def carol_def)
  have p: "TeamViewSet_perform_create store0 alice ''core'' None (Some [bob]) =
     (store0\<lparr>teams := [\<lparr>team_pk = 1, team_name = ''core'', team_description = [],
                          team_created_by = 1, members = [2, 1]\<rparr>]\<rparr>,
      \<lparr>team_pk = 1, team_name = ''core'', team_description = [],
            team_created_by = 1, members = [2, 1]\<rparr>)"
    by (simp add: TeamViewSet_perform_create_def Let_def next_pk_def store0_def
        alice_def bob_def)
  show ?thesis
    using r by (simp add: TeamViewSet_create_def TeamViewSet_create_permits_every_role v p)
qed

end
